theory Spec2Isabelle
  imports Complex_Main "HOL-Library.AList" "HOL-Library.Product_Lexorder"
begin

section \<open>Data model\<close>

text \<open>
  The embedding follows \<^verbatim>\<open>logic/stakeholder.py\<close> and \<^verbatim>\<open>logic/sim.py\<close>.
  Python floats are idealised as \<^typ>\<open>real\<close>, Python ints are \<^typ>\<open>int\<close>, a
  dictionary is an association list in insertion order (its keys distinct), and every
  exception the code can raise is a value of \<open>error\<close>, returned as \<open>Inl\<close>.
\<close>

datatype error =
    KeyError
  | ValueError string
  | PoolNotFoundError int int
  | NonPositiveAllocationError
  | ZeroDivisionError
  | AttributeError
  | IndexError
  | TypeError
  | UnboundLocalError

text \<open>
  \<^verbatim>\<open>logic/pool.py\<close> is not among the sources. The record has the attributes of a
  pool that \<^verbatim>\<open>stakeholder.py\<close> reads and writes.
\<close>

record pool =
  pool_id :: int
  owner :: int
  pledge :: real
  margin :: real
  stake :: real
  cost :: real
  is_private :: bool
  delegators :: "(int \<times> real) list"
  potential_profit :: real

text \<open>
  \<^verbatim>\<open>logic/strategy.py\<close> is not among the sources either; the record has the keyword
  arguments with which \<^verbatim>\<open>stakeholder.py\<close> builds a Strategy.
\<close>

record strategy =
  pledges :: "real list"
  margins :: "real list"
  stake_allocations :: "(int \<times> real) list"
  is_pool_operator :: bool
  num_pools :: int
  owned_pools :: "(int \<times> pool) list"

record stakeholder =
  unique_id :: int
  cost :: real
  stake :: real
  isMyopic :: bool
  abstains :: bool
  remaining_min_steps_to_keep_pool :: int
  new_strategy :: "strategy option"
  strategy :: strategy

text \<open>
  The per-era overrides of \<^verbatim>\<open>Simulation.adjustable_params\<close>: one optional list for each
  name of \<^verbatim>\<open>extra_fields\<close>, in the order in which \<^verbatim>\<open>__init__\<close> inserts them.
\<close>

record adjustable_params =
  adj_n :: "int list option"
  adj_k :: "real list option"
  adj_alpha :: "real list option"
  adj_myopic_fraction :: "real list option"
  adj_relative_utility_threshold :: "real list option"
  adj_absolute_utility_threshold :: "real list option"
  adj_min_steps_to_keep_pool :: "int list option"
  adj_pool_splitting :: "bool list option"
  adj_max_iterations :: "int list option"
  adj_cost_factor :: "real list option"
  adj_agent_activation_order :: "string list option"
  adj_extra_cost_type :: "string list option"
  adj_reward_function_option :: "int list option"
  adj_generate_graphs :: "bool list option"

text \<open>
  The state of a \<^verbatim>\<open>Simulation\<close>. \<open>steps\<close> is \<^verbatim>\<open>schedule.steps\<close> and \<open>agents\<close> is
  the dictionary of \<^verbatim>\<open>get_agents_dict\<close>. \<^verbatim>\<open>stakeholder.py\<close> reads its model through
  the attribute names \<^verbatim>\<open>player_activation_order\<close>, \<^verbatim>\<open>common_cost\<close>,
  \<^verbatim>\<open>pool_owner_id_mapping\<close> and \<^verbatim>\<open>get_players_dict\<close>, which \<^verbatim>\<open>sim.py\<close> does not set
  under these names; the record provides them as the stakeholder code expects them.
\<close>

record simulation =
  n :: int
  k :: int
  alpha :: real
  myopic_fraction :: real
  relative_utility_threshold :: real
  absolute_utility_threshold :: real
  min_steps_to_keep_pool :: int
  pool_splitting :: bool
  max_iterations :: int
  cost_factor :: real
  agent_activation_order :: string
  extra_cost_type :: string
  reward_function_option :: int
  generate_graphs :: bool
  current_era :: int
  total_eras :: int
  adjustable_params :: adjustable_params
  running :: bool
  total_stake :: real
  perceived_active_stake :: real
  beta :: real
  consecutive_idle_steps :: int
  current_step_idle :: bool
  min_consecutive_idle_steps_for_convergence :: int
  pools :: "(int \<times> pool) list"
  revision_frequency :: int
  id_seq :: int
  equilibrium_steps :: "int list"
  pivot_steps :: "int list"
  steps :: int
  agents :: "(int \<times> stakeholder) list"
  player_activation_order :: string
  common_cost :: real
  pool_owner_id_mapping :: "(int \<times> int) list"

text \<open>
  What one call of \<^verbatim>\<open>schedule.step()\<close> leaves behind. The scheduler belongs to the
  mesa library; it runs \<^verbatim>\<open>Stakeholder.step\<close> (and \<^verbatim>\<open>advance\<close>) of the agents and
  adds one to \<^verbatim>\<open>schedule.steps\<close>. The agents write the registry, their own
  attributes, the pool id sequence and the owner mapping of the model, and
  \<^verbatim>\<open>advance\<close> clears \<^verbatim>\<open>current_step_idle\<close> when it executes a staged strategy:
  \<open>act_committed\<close> says that some agent did.
\<close>

record activation =
  act_pools :: "(int \<times> pool) list"
  act_agents :: "(int \<times> stakeholder) list"
  act_id_seq :: int
  act_pool_owner_id_mapping :: "(int \<times> int) list"
  act_committed :: bool

text \<open>
  The functions of \<^verbatim>\<open>logic/helper.py\<close> and \<^verbatim>\<open>logic/model_reporters.py\<close> and the
  desirability methods of \<^verbatim>\<open>logic/pool.py\<close> are not among the sources: they are
  parameters of the model, as are the order in which the Python runtime iterates a set of
  ints (\<open>set_iteration\<close>, from the elements in insertion order to the elements in
  iteration order) and the effect of the scheduler (\<open>schedule_step\<close>).
\<close>

record helpers =
  calculate_pool_stake_NM :: "int \<Rightarrow> (int \<times> pool) list \<Rightarrow> real \<Rightarrow> int \<Rightarrow> real"
  calculate_pool_reward :: "real \<Rightarrow> real \<Rightarrow> real \<Rightarrow> real \<Rightarrow> real"
  calculate_potential_profit :: "real \<Rightarrow> real \<Rightarrow> real \<Rightarrow> real \<Rightarrow> real"
  calculate_ranks :: "(int \<times> real) list \<Rightarrow> (int \<times> int) list"
  calculate_desirability :: "pool \<Rightarrow> real"
  calculate_myopic_desirability :: "pool \<Rightarrow> real \<Rightarrow> real \<Rightarrow> real"
  set_iteration :: "int list \<Rightarrow> int list"
  get_active_stake_pools :: "simulation \<Rightarrow> real"
  schedule_step :: "simulation \<Rightarrow> error + activation"

section \<open>Python built-ins\<close>

text \<open>A loop whose body can raise: the first exception ends it.\<close>

fun foldE :: "('s \<Rightarrow> 'a \<Rightarrow> error + 's) \<Rightarrow> 's \<Rightarrow> 'a list \<Rightarrow> error + 's" where
  "foldE f s [] = Inr s"
| "foldE f s (x # xs) = (case f s x of Inl e \<Rightarrow> Inl e | Inr s' \<Rightarrow> foldE f s' xs)"

text \<open>
  \<^verbatim>\<open>max(iterable, key=f)\<close> returns the first element whose key is maximal: a later
  element replaces the best one only when its key is strictly greater.
\<close>

fun max_from :: "('a \<Rightarrow> 'b::linorder) \<Rightarrow> 'a \<Rightarrow> 'a list \<Rightarrow> 'a" where
  "max_from f best [] = best"
| "max_from f best (x # xs) = max_from f (if f best < f x then x else best) xs"

definition py_max :: "('a \<Rightarrow> 'b::linorder) \<Rightarrow> 'a list \<Rightarrow> error + 'a" where
  "py_max f xs =
     (case xs of
        [] \<Rightarrow> Inl (ValueError ''max() arg is an empty sequence'')
      | x # rest \<Rightarrow> Inr (max_from f x rest))"

text \<open>\<^verbatim>\<open>d1 | d2\<close> on dictionaries: the entries of \<open>d2\<close> are stored into a copy of \<open>d1\<close>.\<close>

definition dict_union :: "('k \<times> 'v) list \<Rightarrow> ('k \<times> 'v) list \<Rightarrow> ('k \<times> 'v) list" where
  "dict_union d1 d2 = foldl (\<lambda>d (key, v). AList.update key v d) d1 d2"

text \<open>
  \<^verbatim>\<open>sorted(items, key=f, reverse=True)\<close>: descending by key, items with equal keys in
  their original order.
\<close>

definition sorted_reverse :: "('a \<Rightarrow> 'b::linorder) \<Rightarrow> 'a list \<Rightarrow> 'a list" where
  "sorted_reverse f xs = rev (sort_key f (rev xs))"

text \<open>A set of ints as the list of its elements in insertion order.\<close>

definition set_add :: "int \<Rightarrow> int list \<Rightarrow> int list" where
  "set_add x xs = (if x \<in> set xs then xs else xs @ [x])"

definition set_remove :: "int \<Rightarrow> int list \<Rightarrow> error + int list" where
  "set_remove x xs = (if x \<in> set xs then Inr (removeAll x xs) else Inl KeyError)"


section \<open>Pool and Strategy operations\<close>

definition Pool_init ::
  "helpers \<Rightarrow> int \<Rightarrow> real \<Rightarrow> real \<Rightarrow> int \<Rightarrow> real \<Rightarrow> real \<Rightarrow> bool \<Rightarrow> pool" where
  \<comment> \<open>Modelled from the spec: the constructor of Pool (\<^verbatim>\<open>logic/pool.py\<close> is missing), with
      the keyword arguments of its call in \<^verbatim>\<open>find_operator_move\<close>. A new pool has its
      pledge as stake and no delegators; its margin is assigned by the caller before it is
      read.\<close>
  "Pool_init h pid c p own a b priv =
     \<lparr>pool_id = pid, owner = own, pledge = p, margin = 0, pool.stake = p, pool.cost = c,
      is_private = priv, delegators = [],
      potential_profit = calculate_potential_profit h p c a b\<rparr>"

definition set_potential_profit :: "helpers \<Rightarrow> real \<Rightarrow> real \<Rightarrow> pool \<Rightarrow> pool" where
  \<comment> \<open>Modelled from the spec: \<^verbatim>\<open>Pool.set_potential_profit(alpha, beta)\<close>, the cached
      recompute after a pledge or cost change.\<close>
  "set_potential_profit h a b p =
     p\<lparr>potential_profit := calculate_potential_profit h (pledge p) (pool.cost p) a b\<rparr>"

definition update_delegation :: "real \<Rightarrow> int \<Rightarrow> pool \<Rightarrow> error + pool" where
  \<comment> \<open>Modelled from the spec: \<^verbatim>\<open>Pool.update_delegation(stake, delegator_id)\<close> changes the
      pool's stake and the delegator's entry, removes the entry when it reaches zero, and
      fails when the delegator's stake would become negative.\<close>
  "update_delegation d delegator_id p =
     (let old = (case map_of (delegators p) delegator_id of None \<Rightarrow> 0 | Some x \<Rightarrow> x);
          new = old + d
      in if new < 0 then Inl NonPositiveAllocationError
         else Inr (p\<lparr>pool.stake := pool.stake p + d,
                     delegators := (if new = 0 then AList.delete delegator_id (delegators p)
                                    else AList.update delegator_id new (delegators p))\<rparr>))"

definition Strategy_init ::
  "real list \<Rightarrow> real list \<Rightarrow> (int \<times> real) list \<Rightarrow> bool \<Rightarrow> int \<Rightarrow> (int \<times> pool) list \<Rightarrow> strategy" where
  "Strategy_init ps ms allocs is_op np owned =
     \<lparr>pledges = ps, margins = ms, stake_allocations = allocs, is_pool_operator = is_op,
      num_pools = np, owned_pools = owned\<rparr>"

definition Strategy_default :: strategy where
  \<comment> \<open>Modelled from the spec: \<^verbatim>\<open>Strategy()\<close> without arguments, a delegator with no
      allocated stake and no pools.\<close>
  "Strategy_default = Strategy_init [] [] [] False 0 []"

section \<open>Stakeholder: utilities\<close>

definition calculate_operator_utility_by_pool ::
  "helpers \<Rightarrow> simulation \<Rightarrow> stakeholder \<Rightarrow> pool \<Rightarrow> (int \<times> pool) list \<Rightarrow> error + real" where
  "calculate_operator_utility_by_pool h m self pool all_pools =
     (let stake_allocation = pledge pool;
          mg = margin pool;
          pool_stake = calculate_pool_stake_NM h (pool_id pool) all_pools (beta m) (k m);
          r = calculate_pool_reward h pool_stake (pledge pool) (alpha m) (beta m)
      in if pool_stake = 0 then Inl ZeroDivisionError
         else let q = stake_allocation / pool_stake;
                  u_0 = r - cost self;
                  m_factor = mg + ((1 - mg) * q)
              in Inr (if u_0 \<le> 0 then u_0 else u_0 * m_factor))"

definition calculate_operator_utility_by_strategy ::
  "helpers \<Rightarrow> simulation \<Rightarrow> stakeholder \<Rightarrow> strategy \<Rightarrow> error + real" where
  "calculate_operator_utility_by_strategy h m self strat =
     (let potential_pools = owned_pools strat;
          all_pools = dict_union (pools m) potential_pools
      in foldE (\<lambda>utility pool.
                  case calculate_operator_utility_by_pool h m self pool all_pools of
                    Inl e \<Rightarrow> Inl e
                  | Inr u \<Rightarrow> Inr (utility + u))
           0 (map snd potential_pools))"

definition calculate_delegator_utility ::
  "helpers \<Rightarrow> simulation \<Rightarrow> stakeholder \<Rightarrow> pool \<Rightarrow> real \<Rightarrow> error + real" where
  "calculate_delegator_utility h m self pool stake_allocation =
     (let previous_allocation_to_pool =
            (case map_of (stake_allocations (strategy self)) (pool_id pool) of
               Some a \<Rightarrow> a | None \<Rightarrow> 0);
          current_stake = pool.stake pool - previous_allocation_to_pool + stake_allocation;
          non_myopic_stake =
            max (calculate_pool_stake_NM h (pool_id pool) (pools m) (beta m) (k m)) current_stake;
          pool_stake = (if isMyopic self then current_stake else non_myopic_stake);
          r = calculate_pool_reward h pool_stake (pledge pool) (alpha m) (beta m)
      in if pool_stake = 0 then Inl ZeroDivisionError
         else let q = stake_allocation / pool_stake;
                  m_factor = (1 - margin pool) * q;
                  u_0 = r - pool.cost pool;
                  u = m_factor * u_0
              in Inr (max 0 u))"

text \<open>The body of the loop of \<^verbatim>\<open>calculate_utility\<close> over the allocations.\<close>

definition delegation_term ::
  "helpers \<Rightarrow> simulation \<Rightarrow> stakeholder \<Rightarrow> real \<Rightarrow> int \<times> real \<Rightarrow> error + real" where
  "delegation_term h m self utility =
     (\<lambda>(pid, a).
        if a \<le> 0 then Inr utility
        else (case map_of (pools m) pid of
                Some pool \<Rightarrow>
                  (case calculate_delegator_utility h m self pool a of
                     Inl e \<Rightarrow> Inl e
                   | Inr u \<Rightarrow> Inr (utility + u))
              | None \<Rightarrow> Inl (PoolNotFoundError (unique_id self) pid)))"

definition calculate_utility ::
  "helpers \<Rightarrow> simulation \<Rightarrow> stakeholder \<Rightarrow> strategy \<Rightarrow> error + real" where
  "calculate_utility h m self strat =
     (case (if is_pool_operator strat
            then (case calculate_operator_utility_by_strategy h m self strat of
                    Inl e \<Rightarrow> Inl e
                  | Inr u \<Rightarrow> Inr (0 + u))
            else Inr 0) of
        Inl e \<Rightarrow> Inl e
      | Inr utility0 \<Rightarrow> foldE (delegation_term h m self) utility0 (stake_allocations strat))"

definition get_pools_list :: "simulation \<Rightarrow> pool list" where
  "get_pools_list m = map snd (pools m)"


definition has_potential_for_pool :: "helpers \<Rightarrow> simulation \<Rightarrow> stakeholder \<Rightarrow> bool" where
  "has_potential_for_pool h m self =
     (let saturation_point = beta m;
          current_pools = get_pools_list m;
          potential_profit =
            calculate_potential_profit h (stake self) (cost self) (alpha m) saturation_point
      in if real (length current_pools) * saturation_point < total_stake m
         then potential_profit > 0
         else let existing_desirabilities = map (calculate_desirability h) current_pools
              in potential_profit > 0 \<and>
                 (\<exists>desirability \<in> set existing_desirabilities. desirability < potential_profit))"

section \<open>Stakeholder: the delegation move\<close>

text \<open>
  The first loop of \<^verbatim>\<open>find_delegation_move_desirability\<close>: in a copy of the registry,
  the agent's own positive allocations are taken out of their pools.
\<close>

definition pools_without_own_delegations ::
  "simulation \<Rightarrow> stakeholder \<Rightarrow> error + (int \<times> pool) list" where
  "pools_without_own_delegations m self =
     foldE (\<lambda>ps (pid, allocation).
              if allocation > 0
              then (case map_of ps pid of
                      None \<Rightarrow> Inl KeyError
                    | Some p \<Rightarrow>
                        (case update_delegation (- allocation) (unique_id self) p of
                           Inl e \<Rightarrow> Inl e
                         | Inr p' \<Rightarrow> Inr (AList.update pid p' ps)))
              else Inr ps)
       (pools m) (stake_allocations (strategy self))"

text \<open>The dictionary comprehension: pool id to (desirability, stake), public pools of others.\<close>

definition desirabilities_n_stakes ::
  "helpers \<Rightarrow> simulation \<Rightarrow> stakeholder \<Rightarrow> pool list \<Rightarrow> (int \<times> real \<times> real) list" where
  "desirabilities_n_stakes h m self pools_list =
     foldl (\<lambda>d p. AList.update (pool_id p)
                     ((if isMyopic self
                       then calculate_myopic_desirability h p (alpha m) (beta m)
                       else calculate_desirability h p),
                      pool.stake p) d)
       [] (filter (\<lambda>p. owner p \<noteq> unique_id self \<and> \<not> is_private p) pools_list)"

text \<open>The second loop: the greedy fill over the sorted pools, with its early exit.\<close>

fun allocate_stake ::
  "real \<Rightarrow> real \<Rightarrow> (int \<times> real \<times> real) list \<Rightarrow> (int \<times> real) list \<Rightarrow> (int \<times> real) list" where
  "allocate_stake saturation_point stake_to_delegate [] allocations = allocations"
| "allocate_stake saturation_point stake_to_delegate ((pid, desirability, stk) # rest) allocations =
     (if stake_to_delegate = 0 then allocations
      else if stk < saturation_point
      then (let stake_to_saturation = saturation_point - stk;
                allocation = min stake_to_delegate stake_to_saturation
            in if allocation > 0
               then allocate_stake saturation_point (stake_to_delegate - allocation) rest
                      (AList.update pid allocation allocations)
               else allocate_stake saturation_point stake_to_delegate rest allocations)
      else allocate_stake saturation_point stake_to_delegate rest allocations)"

definition find_delegation_move_desirability ::
  "helpers \<Rightarrow> simulation \<Rightarrow> stakeholder \<Rightarrow> real option \<Rightarrow> error + strategy" where
  "find_delegation_move_desirability h m self stake_to_delegate_arg =
     (let saturation_point = beta m;
          stake_to_delegate =
            (case stake_to_delegate_arg of None \<Rightarrow> stake self | Some s \<Rightarrow> s)
      in case pools_without_own_delegations m self of
           Inl e \<Rightarrow> Inl e
         | Inr ps \<Rightarrow>
             (let pools_list = map snd ps;
                  d = desirabilities_n_stakes h m self pools_list;
                  allocations =
                    allocate_stake saturation_point stake_to_delegate (sorted_reverse snd d) []
              in Inr (Strategy_default\<lparr>stake_allocations := allocations,
                                        is_pool_operator := False\<rparr>)))"

definition find_delegation_move_for_operator ::
  "helpers \<Rightarrow> simulation \<Rightarrow> stakeholder \<Rightarrow> real list \<Rightarrow> error + (int \<times> real) list" where
  "find_delegation_move_for_operator h m self pledges_list =
     (let remaining_stake = stake self - sum_list pledges_list
      in if remaining_stake > 0
         then (case find_delegation_move_desirability h m self (Some remaining_stake) of
                 Inl e \<Rightarrow> Inl e
               | Inr delegation_strategy \<Rightarrow> Inr (stake_allocations delegation_strategy))
         else Inr [])"

section \<open>Stakeholder: operator moves\<close>

definition calculate_pledges :: "simulation \<Rightarrow> stakeholder \<Rightarrow> int \<Rightarrow> error + real list" where
  "calculate_pledges m self np =
     (if np \<le> 0
      then Inl (ValueError ''Player tried to calculate pledge for zero or less pools.'')
      else Inr (replicate (nat np) (min (stake self / real_of_int np) (beta m))))"

text \<open>
  \<^verbatim>\<open>calculate_margin_binary_search\<close> stores the copied pool in a copy of the registry
  under its id and then assigns its margin: the registry copy holds the same object, so
  every utility is computed with the pool of the current margin in \<open>all_pools\<close>.
\<close>

definition margin_utility ::
  "helpers \<Rightarrow> simulation \<Rightarrow> stakeholder \<Rightarrow> pool \<Rightarrow> real \<Rightarrow> error + real" where
  "margin_utility h m self new_pool mg =
     (let p = new_pool\<lparr>margin := mg\<rparr>
      in calculate_operator_utility_by_pool h m self p (AList.update (pool_id p) p (pools m)))"

fun margin_search_loop ::
  "helpers \<Rightarrow> simulation \<Rightarrow> stakeholder \<Rightarrow> pool \<Rightarrow> nat \<Rightarrow> real \<Rightarrow> real \<Rightarrow> real \<Rightarrow> real
     \<Rightarrow> error + real" where
  "margin_search_loop h m self new_pool 0 lower_bound mid upper_bound mid_utility = Inr mid"
| "margin_search_loop h m self new_pool (Suc remaining) lower_bound mid upper_bound mid_utility =
     (let new_margin = (lower_bound + mid) / 2
      in case margin_utility h m self new_pool new_margin of
           Inl e \<Rightarrow> Inl e
         | Inr new_utility \<Rightarrow>
             (let upper_bound' = (if new_utility \<ge> mid_utility then mid else upper_bound);
                  lower_bound' = (if new_utility \<ge> mid_utility then lower_bound else mid);
                  mid' = (lower_bound' + upper_bound') / 2
              in case margin_utility h m self new_pool mid' of
                   Inl e \<Rightarrow> Inl e
                 | Inr mid_utility' \<Rightarrow>
                     margin_search_loop h m self new_pool remaining
                       lower_bound' mid' upper_bound' mid_utility'))"

definition calculate_margin_binary_search ::
  "helpers \<Rightarrow> simulation \<Rightarrow> stakeholder \<Rightarrow> pool \<Rightarrow> real \<Rightarrow> error + real" where
  "calculate_margin_binary_search h m self pool initial_margin =
     (let max_depth = 5;
          lower_bound = 0;
          mid = initial_margin;
          upper_bound = min (2 * mid - lower_bound) 1
      in case margin_utility h m self pool mid of
           Inl e \<Rightarrow> Inl e
         | Inr mid_utility \<Rightarrow>
             margin_search_loop h m self pool max_depth lower_bound mid upper_bound mid_utility)"

definition dict_pop :: "'k \<Rightarrow> ('k \<times> 'v) list \<Rightarrow> error + ('k \<times> 'v) list" where
  "dict_pop key d = (if key \<in> fst ` set d then Inr (AList.delete key d) else Inl KeyError)"

text \<open>One round of the retiring loop of \<^verbatim>\<open>determine_current_pools\<close>.\<close>

definition retire_pool :: "helpers \<Rightarrow> (int \<times> pool) list \<Rightarrow> error + (int \<times> pool) list" where
  "retire_pool h owned =
     (let desirabilities = map (\<lambda>(i, p). (i, calculate_desirability h p)) owned;
          ranks = calculate_ranks h desirabilities
      in case py_max snd ranks of
           Inl e \<Rightarrow> Inl e
         | Inr worst \<Rightarrow> dict_pop (fst worst) owned)"

definition determine_current_pools ::
  "helpers \<Rightarrow> stakeholder \<Rightarrow> int \<Rightarrow> error + (int \<times> pool) list" where
  "determine_current_pools h self np =
     (let owned = owned_pools (strategy self)
      in if np < num_pools (strategy self)
         then (let retiring_pools_num = num_pools (strategy self) - np
               in foldE (\<lambda>ow i. retire_pool h ow) owned [0..<nat retiring_pools_num])
         else Inr owned)"

text \<open>
  The first loop of \<^verbatim>\<open>find_operator_move\<close>, over the pools the agent keeps. The keys of
  \<open>owned_pools\<close> are the ids of their pools, so the store at the end of the body
  replaces the entry being visited.
\<close>

definition adjust_existing_pool ::
  "helpers \<Rightarrow> simulation \<Rightarrow> stakeholder \<Rightarrow> real list \<Rightarrow> real
     \<Rightarrow> (int \<times> pool) list \<times> real list \<Rightarrow> nat \<times> int \<times> pool
     \<Rightarrow> error + (int \<times> pool) list \<times> real list" where
  "adjust_existing_pool h m self pledges_list cost_per_pool acc item =
     (case acc of (owned, margins_list) \<Rightarrow>
      case item of (i, pid, p) \<Rightarrow>
        if i \<ge> length pledges_list then Inl IndexError
        else
          (let p1 = p\<lparr>pool.stake := pool.stake p - (pledge p - pledges_list ! i)\<rparr>;
               p2 = p1\<lparr>pledge := pledges_list ! i\<rparr>;
               p3 = p2\<lparr>is_private := (pledge p2 \<ge> beta m)\<rparr>;
               p4 = p3\<lparr>pool.cost := cost_per_pool\<rparr>;
               p5 = set_potential_profit h (alpha m) (beta m) p4
           in case (if is_private p5 then Inr 0
                    else calculate_margin_binary_search h m self p5 (margin p5)) of
                Inl e \<Rightarrow> Inl e
              | Inr mg \<Rightarrow>
                  (let p6 = p5\<lparr>margin := mg\<rparr>
                   in Inr (AList.update (pool_id p6) p6 owned, margins_list @ [margin p6]))))"

text \<open>The second loop, over the pools to open: each takes the next pool id.\<close>

definition get_next_pool_id :: "simulation \<Rightarrow> simulation \<times> int" where
  "get_next_pool_id m = (m\<lparr>id_seq := id_seq m + 1\<rparr>, id_seq m + 1)"

definition rewind_pool_id_seq :: "int \<Rightarrow> simulation \<Rightarrow> simulation" where
  "rewind_pool_id_seq step_arg m = m\<lparr>id_seq := id_seq m - step_arg\<rparr>"

definition open_hypothetical_pool ::
  "helpers \<Rightarrow> stakeholder \<Rightarrow> real list \<Rightarrow> real
     \<Rightarrow> simulation \<times> (int \<times> pool) list \<times> real list \<Rightarrow> nat
     \<Rightarrow> error + simulation \<times> (int \<times> pool) list \<times> real list" where
  "open_hypothetical_pool h self pledges_list cost_per_pool acc i =
     (case acc of (m, owned, margins_list) \<Rightarrow>
      case get_next_pool_id m of (m1, pid) \<Rightarrow>
        (let m2 = m1\<lparr>pool_owner_id_mapping :=
                        AList.update pid (unique_id self) (pool_owner_id_mapping m1)\<rparr>
         in if i \<ge> length pledges_list then Inl IndexError
            else
              (let p = Pool_init h pid cost_per_pool (pledges_list ! i) (unique_id self)
                         (alpha m2) (beta m2) (pledges_list ! i \<ge> beta m2)
               in case (if is_private p then Inr 0
                        else calculate_margin_binary_search h m2 self p 0.25) of
                    Inl e \<Rightarrow> Inl e
                  | Inr mg \<Rightarrow>
                      (let p' = p\<lparr>margin := mg\<rparr>
                       in Inr (m2, AList.update (pool_id p') p' owned,
                               margins_list @ [margin p'])))))"

definition find_operator_move ::
  "helpers \<Rightarrow> simulation \<Rightarrow> stakeholder \<Rightarrow> int \<Rightarrow> (int \<times> pool) list
     \<Rightarrow> error + simulation \<times> strategy" where
  "find_operator_move h m self np owned =
     (case calculate_pledges m self np of
        Inl e \<Rightarrow> Inl e
      | Inr pledges_list \<Rightarrow>
          (let cost_per_pool =
                 (if np > 1 then common_cost m + cost self / real_of_int np else cost self)
           in case foldE (adjust_existing_pool h m self pledges_list cost_per_pool)
                     (owned, []) (zip [0..<length owned] owned) of
                Inl e \<Rightarrow> Inl e
              | Inr (owned1, margins1) \<Rightarrow>
                  (let existing_pools_num = length owned1
                   in case foldE (open_hypothetical_pool h self pledges_list cost_per_pool)
                             (m, owned1, margins1) [existing_pools_num..<nat np] of
                        Inl e \<Rightarrow> Inl e
                      | Inr (m', owned2, margins2) \<Rightarrow>
                          (case find_delegation_move_for_operator h m' self pledges_list of
                             Inl e \<Rightarrow> Inl e
                           | Inr allocations \<Rightarrow>
                               Inr (m', Strategy_init pledges_list margins2 allocations
                                          True np owned2)))))"

definition num_pools_options :: "simulation \<Rightarrow> stakeholder \<Rightarrow> error + int list" where
  "num_pools_options m self =
     (let opts0 = [1]
      in if pool_splitting m
         then (let current_num_pools = num_pools (strategy self)
               in case (if current_num_pools > 0
                        then (let opts1 = set_add current_num_pools opts0
                              in if current_num_pools > 1
                                 then (if remaining_min_steps_to_keep_pool self > 0
                                       then set_remove 1 opts1
                                       else Inr (set_add (current_num_pools - 1) opts1))
                                 else Inr opts1)
                        else Inr opts0) of
                    Inl e \<Rightarrow> Inl e
                  | Inr opts2 \<Rightarrow> Inr (set_add (current_num_pools + 1) opts2))
         else Inr opts0)"

definition find_operator_moves ::
  "helpers \<Rightarrow> simulation \<Rightarrow> stakeholder \<Rightarrow> error + simulation \<times> (int \<times> strategy) list" where
  "find_operator_moves h m self =
     (case num_pools_options m self of
        Inl e \<Rightarrow> Inl e
      | Inr opts \<Rightarrow>
          foldE (\<lambda>(m1, moves) np.
                   case determine_current_pools h self np of
                     Inl e \<Rightarrow> Inl e
                   | Inr owned \<Rightarrow>
                       (case find_operator_move h m1 self np owned of
                          Inl e \<Rightarrow> Inl e
                        | Inr (m2, s) \<Rightarrow> Inr (m2, AList.update np s moves)))
            (m, []) (set_iteration h opts))"

section \<open>Stakeholder: choosing the move\<close>

text \<open>
  The loop of \<^verbatim>\<open>update_strategy\<close> over the operator strategies. Its state is
  \<^verbatim>\<open>max_operator_utility\<close>, \<^verbatim>\<open>max_operator_strategy\<close> and the loop variable
  \<^verbatim>\<open>operator_strategy\<close>, which the code reads again after the loop.
\<close>

definition best_operator_move ::
  "helpers \<Rightarrow> simulation \<Rightarrow> stakeholder \<Rightarrow> strategy list
     \<Rightarrow> error + real \<times> strategy option \<times> strategy option" where
  "best_operator_move h m self operator_strategies =
     foldE (\<lambda>(max_operator_utility, max_operator_strategy, last_strategy) operator_strategy.
              case calculate_utility h m self operator_strategy of
                Inl e \<Rightarrow> Inl e
              | Inr operator_utility \<Rightarrow>
                  Inr (if operator_utility > max_operator_utility
                       then (operator_utility, Some operator_strategy, Some operator_strategy)
                       else (max_operator_utility, max_operator_strategy,
                             Some operator_strategy)))
       (0, None, None) operator_strategies"

text \<open>
  The first part of \<^verbatim>\<open>update_strategy\<close>, up to the comparison: it builds
  \<open>possible_moves\<close>, the dictionary of the code in insertion order (\<open>current\<close>, then
  \<open>delegator\<close>, then \<open>operator\<close>). Each value is the pair of a utility and a strategy,
  which is \<open>None\<close> for an operator branch without a profitable strategy. The result also
  has the model, in which the operator branch has taken pool ids, and the last value of
  the loop variable \<^verbatim>\<open>operator_strategy\<close>.
\<close>

definition consider_moves ::
  "helpers \<Rightarrow> simulation \<Rightarrow> stakeholder
     \<Rightarrow> error + simulation \<times> (string \<times> real \<times> strategy option) list \<times> strategy option" where
  "consider_moves h m self =
     (case calculate_utility h m self (strategy self) of
        Inl e \<Rightarrow> Inl e
      | Inr current_utility \<Rightarrow>
     (let current_utility_with_inertia =
            max ((1 + relative_utility_threshold m) * current_utility)
                (current_utility + absolute_utility_threshold m);
          possible_moves0 = [(''current'', current_utility_with_inertia, Some (strategy self))]
      in case (if remaining_min_steps_to_keep_pool self = 0
               then (case find_delegation_move_desirability h m self None of
                       Inl e \<Rightarrow> Inl e
                     | Inr delegator_strategy \<Rightarrow>
                         (case calculate_utility h m self delegator_strategy of
                            Inl e \<Rightarrow> Inl e
                          | Inr delegator_utility \<Rightarrow>
                              Inr (AList.update ''delegator''
                                     (delegator_utility, Some delegator_strategy)
                                     possible_moves0)))
               else Inr possible_moves0) of
           Inl e \<Rightarrow> Inl e
         | Inr possible_moves1 \<Rightarrow>
             (if is_pool_operator (strategy self) \<or> has_potential_for_pool h m self
              then (case find_operator_moves h m self of
                      Inl e \<Rightarrow> Inl e
                    | Inr (m1, operator_strategies) \<Rightarrow>
                        (case best_operator_move h m1 self (map snd operator_strategies) of
                           Inl e \<Rightarrow> Inl e
                         | Inr (max_operator_utility, max_operator_strategy, last_strategy) \<Rightarrow>
                             Inr (m1,
                                  AList.update ''operator''
                                    (max_operator_utility, max_operator_strategy)
                                    possible_moves1,
                                  last_strategy)))
              else Inr (m, possible_moves1, None))))"

text \<open>\<^verbatim>\<open>max(possible_moves, key=lambda key: possible_moves[key][0])\<close>.\<close>

definition max_utility_option :: "(string \<times> real \<times> strategy option) list \<Rightarrow> error + string" where
  "max_utility_option possible_moves =
     (case py_max (\<lambda>(key, utility, s). utility) possible_moves of
        Inl e \<Rightarrow> Inl e
      | Inr best \<Rightarrow> Inr (fst best))"

text \<open>
  \<^verbatim>\<open>update_strategy\<close>: the comparison, the return of the pool ids of an operator branch
  that was not chosen, and the staging of the chosen strategy.
\<close>

definition update_strategy ::
  "helpers \<Rightarrow> simulation \<Rightarrow> stakeholder \<Rightarrow> error + simulation \<times> stakeholder" where
  "update_strategy h m self =
     (case consider_moves h m self of
        Inl e \<Rightarrow> Inl e
      | Inr (m2, possible_moves, operator_strategy) \<Rightarrow>
     (case max_utility_option possible_moves of
        Inl e \<Rightarrow> Inl e
      | Inr option \<Rightarrow>
     (case (if ''operator'' \<in> fst ` set possible_moves \<and> option \<noteq> ''operator''
            then (case operator_strategy of
                    None \<Rightarrow> Inl UnboundLocalError
                  | Some last_strategy \<Rightarrow>
                      (let old_owned_pools = set (map fst (owned_pools (strategy self)));
                           hypothetical_owned_pools = set (map fst (owned_pools last_strategy))
                       in Inr (rewind_pool_id_seq
                                 (int (card (hypothetical_owned_pools - old_owned_pools))) m2)))
            else Inr m2) of
        Inl e \<Rightarrow> Inl e
      | Inr m3 \<Rightarrow>
          (if option = ''current''
           then Inr (m3, self\<lparr>new_strategy := None\<rparr>)
           else (case map_of possible_moves option of
                   None \<Rightarrow> Inl KeyError
                 | Some (utility, s) \<Rightarrow> Inr (m3, self\<lparr>new_strategy := s\<rparr>))))))"

section \<open>Stakeholder: closing a pool\<close>







section \<open>Simulation\<close>

text \<open>
  An argument of \<^verbatim>\<open>Simulation.__init__\<close> that is either one value or a list with one
  value for each era (\<^verbatim>\<open>isinstance(value, list)\<close>).
\<close>

datatype 'a arg = Scalar 'a | PerEra "'a list"

text \<open>
  The arguments that the constructor reads: the fourteen names of \<^verbatim>\<open>extra_fields\<close>
  and the three others that decide \<open>k\<close>, the total stake and the convergence threshold.
\<close>

record sim_args =
  arg_n :: "int arg"
  arg_k :: "real arg"
  arg_alpha :: "real arg"
  arg_myopic_fraction :: "real arg"
  arg_relative_utility_threshold :: "real arg"
  arg_absolute_utility_threshold :: "real arg"
  arg_min_steps_to_keep_pool :: "int arg"
  arg_pool_splitting :: "bool arg"
  arg_max_iterations :: "int arg"
  arg_cost_factor :: "real arg"
  arg_agent_activation_order :: "string arg"
  arg_extra_cost_type :: "string arg"
  arg_reward_function_option :: "int arg"
  arg_generate_graphs :: "bool arg"
  arg_abstention_rate :: real
  arg_abstention_known :: bool
  arg_steps_for_convergence :: int

definition bindE :: "error + 'a \<Rightarrow> ('a \<Rightarrow> error + 'b) \<Rightarrow> error + 'b" where
  "bindE r f = (case r of Inl e \<Rightarrow> Inl e | Inr v \<Rightarrow> f v)"

text \<open>\<^verbatim>\<open>int(x)\<close> on a float truncates towards zero.\<close>

definition py_int :: "real \<Rightarrow> int" where
  "py_int x = (if x \<ge> 0 then \<lfloor>x\<rfloor> else \<lceil>x\<rceil>)"

text \<open>\<^verbatim>\<open>round(x, ndigits)\<close>: to the nearest multiple of \<open>10 ^ -ndigits\<close>, a tie to the even one.\<close>

definition round_half_even :: "real \<Rightarrow> int" where
  "round_half_even x =
     (let f = \<lfloor>x\<rfloor>; d = x - of_int f
      in if d < 1 / 2 then f else if d > 1 / 2 then f + 1 else if even f then f else f + 1)"

definition py_round :: "real \<Rightarrow> nat \<Rightarrow> real" where
  "py_round x ndigits = of_int (round_half_even (x * 10 ^ ndigits)) / 10 ^ ndigits"

text \<open>The value for era 0 (\<^verbatim>\<open>value[self.current_era]\<close>) and the stored list of an argument.\<close>

definition era_value :: "'a arg \<Rightarrow> error + 'a" where
  "era_value a =
     (case a of
        Scalar v \<Rightarrow> Inr v
      | PerEra vs \<Rightarrow> (case vs of [] \<Rightarrow> Inl IndexError | v # rest \<Rightarrow> Inr v))"

definition era_list :: "'a arg \<Rightarrow> 'a list option" where
  "era_list a = (case a of Scalar v \<Rightarrow> None | PerEra vs \<Rightarrow> Some vs)"

definition era_count :: "'a arg \<Rightarrow> int \<Rightarrow> int" where
  "era_count a eras =
     (case a of
        Scalar v \<Rightarrow> eras
      | PerEra vs \<Rightarrow> (if int (length vs) > eras then int (length vs) else eras))"

definition agent_activation_orders :: "string list" where
  "agent_activation_orders = [''Random'', ''Sequential'', ''Simultaneous'', ''Semisimultaneous'']"

text \<open>
  \<^verbatim>\<open>Simulation.__init__\<close>, without its files and reports. \<open>cargs\<close> are the arguments
  of the call, \<open>file_args\<close> is what \<^verbatim>\<open>read_args_from_file\<close> returns, \<open>input_from_file\<close>
  chooses between them as \<^verbatim>\<open>args\<close>. \<open>initial_agents\<close> and \<open>sampled_stake\<close> are the agents
  and the sum that \<^verbatim>\<open>initialize_agents\<close> draws from the stake distribution;
  \<open>activation_name\<close> and \<open>cc\<close> are the two attributes that only the stakeholder code
  names. The threshold of the last but one step reads the \<^emph>\<open>parameter\<close>
  \<^verbatim>\<open>min_steps_to_keep_pool\<close> of the call, not \<^verbatim>\<open>args\<close>.
\<close>

definition Simulation_init ::
  "sim_args \<Rightarrow> bool \<Rightarrow> sim_args \<Rightarrow> (int \<times> stakeholder) list \<Rightarrow> real \<Rightarrow> string \<Rightarrow> real
     \<Rightarrow> error + simulation" where
  "Simulation_init cargs input_from_file file_args initial_agents sampled_stake activation_name cc =
     (let args = (if input_from_file then file_args else cargs)
      in
      bindE (era_value (arg_n args)) (\<lambda>n0.
      bindE (era_value (arg_k args)) (\<lambda>k0.
      bindE (era_value (arg_alpha args)) (\<lambda>alpha0.
      bindE (era_value (arg_myopic_fraction args)) (\<lambda>myopic0.
      bindE (era_value (arg_relative_utility_threshold args)) (\<lambda>rel0.
      bindE (era_value (arg_absolute_utility_threshold args)) (\<lambda>abs0.
      bindE (era_value (arg_min_steps_to_keep_pool args)) (\<lambda>min_steps0.
      bindE (era_value (arg_pool_splitting args)) (\<lambda>splitting0.
      bindE (era_value (arg_max_iterations args)) (\<lambda>max_it0.
      bindE (era_value (arg_cost_factor args)) (\<lambda>cost_factor0.
      bindE (era_value (arg_agent_activation_order args)) (\<lambda>order0.
      bindE (era_value (arg_extra_cost_type args)) (\<lambda>extra0.
      bindE (era_value (arg_reward_function_option args)) (\<lambda>reward0.
      bindE (era_value (arg_generate_graphs args)) (\<lambda>graphs0.
      (let total_eras0 =
             era_count (arg_generate_graphs args) (era_count (arg_reward_function_option args)
            (era_count (arg_extra_cost_type args) (era_count (arg_agent_activation_order args)
            (era_count (arg_cost_factor args) (era_count (arg_max_iterations args)
            (era_count (arg_pool_splitting args) (era_count (arg_min_steps_to_keep_pool args)
            (era_count (arg_absolute_utility_threshold args)
            (era_count (arg_relative_utility_threshold args)
            (era_count (arg_myopic_fraction args) (era_count (arg_alpha args)
            (era_count (arg_k args) (era_count (arg_n args) 1)))))))))))));
           adjustable =
             \<lparr>adj_n = era_list (arg_n args), adj_k = era_list (arg_k args),
              adj_alpha = era_list (arg_alpha args),
              adj_myopic_fraction = era_list (arg_myopic_fraction args),
              adj_relative_utility_threshold = era_list (arg_relative_utility_threshold args),
              adj_absolute_utility_threshold = era_list (arg_absolute_utility_threshold args),
              adj_min_steps_to_keep_pool = era_list (arg_min_steps_to_keep_pool args),
              adj_pool_splitting = era_list (arg_pool_splitting args),
              adj_max_iterations = era_list (arg_max_iterations args),
              adj_cost_factor = era_list (arg_cost_factor args),
              adj_agent_activation_order = era_list (arg_agent_activation_order args),
              adj_extra_cost_type = era_list (arg_extra_cost_type args),
              adj_reward_function_option = era_list (arg_reward_function_option args),
              adj_generate_graphs = era_list (arg_generate_graphs args)\<rparr>;
           k1 = py_int k0
       in
       bindE (if arg_abstention_known args
              then (if 1 - arg_abstention_rate args = 0 then Inl ZeroDivisionError
                    else Inr (py_int (real_of_int k1 / (1 - arg_abstention_rate args))))
              else Inr k1) (\<lambda>k2.
       if order0 \<notin> set agent_activation_orders then Inl KeyError
       else if 1 - arg_abstention_rate args = 0 then Inl ZeroDivisionError
       else
         (let total_stake0 = sampled_stake / (1 - arg_abstention_rate args)
          in if total_stake0 \<le> 0 then Inl (ValueError ''Total stake must be > 0'')
             else if k2 = 0 then Inl ZeroDivisionError
             else
               (case arg_min_steps_to_keep_pool cargs of
                  PerEra vs \<Rightarrow> Inl TypeError
                | Scalar min_steps_parameter \<Rightarrow>
                    Inr \<lparr>n = n0, k = k2, alpha = alpha0, myopic_fraction = myopic0,
                         relative_utility_threshold = rel0, absolute_utility_threshold = abs0,
                         min_steps_to_keep_pool = min_steps0, pool_splitting = splitting0,
                         max_iterations = max_it0, cost_factor = cost_factor0,
                         agent_activation_order = order0, extra_cost_type = extra0,
                         reward_function_option = reward0, generate_graphs = graphs0,
                         current_era = 0, total_eras = total_eras0,
                         adjustable_params = adjustable, running = True,
                         total_stake = total_stake0, perceived_active_stake = total_stake0,
                         beta = total_stake0 / real_of_int k2,
                         consecutive_idle_steps = 0, current_step_idle = True,
                         min_consecutive_idle_steps_for_convergence =
                           max (min_steps_parameter + 1) (arg_steps_for_convergence args),
                         pools = [], revision_frequency = 10, id_seq = 0,
                         equilibrium_steps = [], pivot_steps = [], steps = 0,
                         agents = initial_agents, player_activation_order = activation_name,
                         common_cost = cc, pool_owner_id_mapping = []\<rparr>)))))))))))))))))))"

definition has_converged :: "simulation \<Rightarrow> bool" where
  "has_converged s = (consecutive_idle_steps s \<ge> min_consecutive_idle_steps_for_convergence s)"

definition revise_beliefs :: "helpers \<Rightarrow> simulation \<Rightarrow> error + simulation" where
  "revise_beliefs h s =
     (let active_stake = get_active_stake_pools h s;
          s1 = s\<lparr>perceived_active_stake := active_stake\<rparr>
      in if beta s1 = 0 then Inl ZeroDivisionError
         else Inr (s1\<lparr>k := \<lceil>py_round (active_stake / beta s1) 12\<rceil>\<rparr>))"

text \<open>
  One round of the loop of \<^verbatim>\<open>adjust_params\<close> for a name other than \<open>k\<close>: the value of
  the current era is stored when the list is long enough. The boolean is
  \<^verbatim>\<open>change_occured\<close>.
\<close>

definition apply_override ::
  "'a list option \<Rightarrow> ('a \<Rightarrow> simulation \<Rightarrow> simulation) \<Rightarrow> simulation \<times> bool \<Rightarrow> simulation \<times> bool" where
  "apply_override values setter st =
     (case st of (s, change_occured) \<Rightarrow>
        (case values of
           None \<Rightarrow> (s, change_occured)
         | Some vs \<Rightarrow>
             if int (length vs) > current_era s
             then (setter (vs ! nat (current_era s)) s, True)
             else (s, change_occured)))"

text \<open>The round for \<open>k\<close>, which also converts the value and recomputes \<open>beta\<close>.\<close>

definition apply_override_k ::
  "real list option \<Rightarrow> simulation \<times> bool \<Rightarrow> error + simulation \<times> bool" where
  "apply_override_k values st =
     (case st of (s, change_occured) \<Rightarrow>
        (case values of
           None \<Rightarrow> Inr (s, change_occured)
         | Some vs \<Rightarrow>
             if int (length vs) > current_era s
             then (let s1 = s\<lparr>k := py_int (vs ! nat (current_era s))\<rparr>
                   in if k s1 = 0 then Inl ZeroDivisionError
                      else Inr (s1\<lparr>beta := total_stake s1 / real_of_int (k s1)\<rparr>, True))
             else Inr (s, change_occured)))"

text \<open>
  The rounds of the loop over \<^verbatim>\<open>adjustable_params.items()\<close>, one for each name, in the
  order of the dictionary.
\<close>

definition era_overrides ::
  "adjustable_params \<Rightarrow> (simulation \<times> bool \<Rightarrow> error + simulation \<times> bool) list" where
  "era_overrides a =
     [\<lambda>st. Inr (apply_override (adj_n a) (\<lambda>v x. x\<lparr>n := v\<rparr>) st),
      apply_override_k (adj_k a),
      \<lambda>st. Inr (apply_override (adj_alpha a) (\<lambda>v x. x\<lparr>alpha := v\<rparr>) st),
      \<lambda>st. Inr (apply_override (adj_myopic_fraction a) (\<lambda>v x. x\<lparr>myopic_fraction := v\<rparr>) st),
      \<lambda>st. Inr (apply_override (adj_relative_utility_threshold a)
                  (\<lambda>v x. x\<lparr>relative_utility_threshold := v\<rparr>) st),
      \<lambda>st. Inr (apply_override (adj_absolute_utility_threshold a)
                  (\<lambda>v x. x\<lparr>absolute_utility_threshold := v\<rparr>) st),
      \<lambda>st. Inr (apply_override (adj_min_steps_to_keep_pool a)
                  (\<lambda>v x. x\<lparr>min_steps_to_keep_pool := v\<rparr>) st),
      \<lambda>st. Inr (apply_override (adj_pool_splitting a) (\<lambda>v x. x\<lparr>pool_splitting := v\<rparr>) st),
      \<lambda>st. Inr (apply_override (adj_max_iterations a) (\<lambda>v x. x\<lparr>max_iterations := v\<rparr>) st),
      \<lambda>st. Inr (apply_override (adj_cost_factor a) (\<lambda>v x. x\<lparr>cost_factor := v\<rparr>) st),
      \<lambda>st. Inr (apply_override (adj_agent_activation_order a)
                  (\<lambda>v x. x\<lparr>agent_activation_order := v\<rparr>) st),
      \<lambda>st. Inr (apply_override (adj_extra_cost_type a) (\<lambda>v x. x\<lparr>extra_cost_type := v\<rparr>) st),
      \<lambda>st. Inr (apply_override (adj_reward_function_option a)
                  (\<lambda>v x. x\<lparr>reward_function_option := v\<rparr>) st),
      \<lambda>st. Inr (apply_override (adj_generate_graphs a) (\<lambda>v x. x\<lparr>generate_graphs := v\<rparr>) st)]"

definition adjust_params :: "simulation \<Rightarrow> error + simulation" where
  "adjust_params s =
     (let s0 = s\<lparr>current_era := current_era s + 1\<rparr>
      in case foldE (\<lambda>st action. action st) (s0, False) (era_overrides (adjustable_params s0)) of
           Inl e \<Rightarrow> Inl e
         | Inr (s', change_occured) \<Rightarrow>
             Inr (if change_occured then s'\<lparr>pivot_steps := pivot_steps s' @ [steps s']\<rparr>
                  else s'))"

text \<open>\<^verbatim>\<open>wrap_up_execution\<close> without its exports.\<close>

definition wrap_up_execution :: "simulation \<Rightarrow> simulation" where
  "wrap_up_execution s = s\<lparr>running := False\<rparr>"

text \<open>The state after \<^verbatim>\<open>schedule.step()\<close>, from what the scheduler leaves behind.\<close>

definition after_activation :: "simulation \<Rightarrow> activation \<Rightarrow> simulation" where
  "after_activation s a =
     s\<lparr>pools := act_pools a, agents := act_agents a, id_seq := act_id_seq a,
       pool_owner_id_mapping := act_pool_owner_id_mapping a,
       current_step_idle := (current_step_idle s \<and> \<not> act_committed a),
       steps := steps s + 1\<rparr>"

text \<open>
  The part of \<^verbatim>\<open>Simulation.step\<close> after \<^verbatim>\<open>schedule.step()\<close>, on the state that the
  activation leaves; \<open>current_step\<close> is the value of \<^verbatim>\<open>schedule.steps\<close> read at the
  start of the step.
\<close>

definition conclude_round :: "int \<Rightarrow> simulation \<Rightarrow> error + simulation" where
  "conclude_round current_step s2 =
     (if current_step_idle s2
      then (let s3 = s2\<lparr>consecutive_idle_steps := consecutive_idle_steps s2 + 1\<rparr>
            in if has_converged s3
               then (let s4 = s3\<lparr>equilibrium_steps :=
                                  equilibrium_steps s3 @
                                  [current_step - min_consecutive_idle_steps_for_convergence s3 + 1]\<rparr>
                     in if current_era s4 < total_eras s4 - 1
                        then (case adjust_params s4 of
                                Inl e \<Rightarrow> Inl e
                              | Inr s5 \<Rightarrow> Inr (s5\<lparr>current_step_idle := True\<rparr>))
                        else Inr (wrap_up_execution s4))
               else Inr (s3\<lparr>current_step_idle := True\<rparr>))
      else Inr (s2\<lparr>consecutive_idle_steps := 0, current_step_idle := True\<rparr>))"

definition step :: "helpers \<Rightarrow> simulation \<Rightarrow> error + simulation" where
  "step h s =
     (let current_step = steps s
      in if current_step \<ge> max_iterations s then Inr (wrap_up_execution s)
         else
           (case (if current_step mod revision_frequency s = 0 \<and> current_step > 0
                  then revise_beliefs h s else Inr s) of
              Inl e \<Rightarrow> Inl e
            | Inr s1 \<Rightarrow>
                (case schedule_step h s1 of
                   Inl e \<Rightarrow> Inl e
                 | Inr a \<Rightarrow> conclude_round current_step (after_activation s1 a))))"


section \<open>Notions used in the statements\<close>



text \<open>The utility of the current strategy with the inertia thresholds of the model.\<close>

definition baseline :: "simulation \<Rightarrow> real \<Rightarrow> real" where
  "baseline m U = max ((1 + relative_utility_threshold m) * U) (U + absolute_utility_threshold m)"

text \<open>The order of the three branches: current, delegator, operator.\<close>

definition branch_rank :: "string \<Rightarrow> nat" where
  "branch_rank key = (if key = ''current'' then 0 else if key = ''delegator'' then 1 else 2)"

text \<open>Two model states with the same registry and the same \<open>beta\<close>, \<open>k\<close> and \<open>alpha\<close>.\<close>

definition same_economy :: "simulation \<Rightarrow> simulation \<Rightarrow> bool" where
  "same_economy m m' \<longleftrightarrow>
     pools m' = pools m \<and> beta m' = beta m \<and> k m' = k m \<and> alpha m' = alpha m"


text \<open>A round of the loop of \<^verbatim>\<open>adjust_params\<close> keeps the attribute \<open>f\<close>.\<close>

definition keeps ::
  "(simulation \<Rightarrow> 'b) \<Rightarrow> (simulation \<times> bool \<Rightarrow> error + simulation \<times> bool) \<Rightarrow> bool" where
  "keeps f action \<longleftrightarrow> (\<forall>st st'. action st = Inr st' \<longrightarrow> f (fst st') = f (fst st))"


section \<open>A small model state\<close>

text \<open>
  One public pool (id 1) of agent 10, to which agent 20 delegates 3, and agent 30, who
  holds 4 and has no pool. The helper functions are simple stand-ins for the missing
  \<^verbatim>\<open>helper.py\<close>; the scheduler of the example leaves every round idle.
\<close>

definition ex_pool :: pool where
  "ex_pool =
     \<lparr>pool_id = 1, owner = 10, pledge = 2, margin = 1 / 10, pool.stake = 5, pool.cost = 1 / 2,
      is_private = False, delegators = [(20, 3)], potential_profit = 1\<rparr>"

definition ex_operator :: stakeholder where
  "ex_operator =
     \<lparr>unique_id = 10, cost = 1 / 2, stake = 2, isMyopic = False, abstains = False,
      remaining_min_steps_to_keep_pool = 0, new_strategy = None,
      strategy = Strategy_init [2] [1 / 10] [] True 1 [(1, ex_pool)]\<rparr>"

definition ex_delegator :: stakeholder where
  "ex_delegator =
     \<lparr>unique_id = 20, cost = 1, stake = 3, isMyopic = False, abstains = False,
      remaining_min_steps_to_keep_pool = 0, new_strategy = None,
      strategy = Strategy_default\<lparr>stake_allocations := [(1, 3)]\<rparr>\<rparr>"

definition ex_newcomer :: stakeholder where
  "ex_newcomer =
     \<lparr>unique_id = 30, cost = 1 / 4, stake = 4, isMyopic = False, abstains = False,
      remaining_min_steps_to_keep_pool = 0, new_strategy = None,
      strategy = Strategy_default\<rparr>"

definition ex_adjustable :: adjustable_params where
  "ex_adjustable =
     \<lparr>adj_n = None, adj_k = Some [2, 3], adj_alpha = None, adj_myopic_fraction = None,
      adj_relative_utility_threshold = None, adj_absolute_utility_threshold = None,
      adj_min_steps_to_keep_pool = None, adj_pool_splitting = None,
      adj_max_iterations = None, adj_cost_factor = None, adj_agent_activation_order = None,
      adj_extra_cost_type = None, adj_reward_function_option = None,
      adj_generate_graphs = None\<rparr>"

definition ex_sim :: simulation where
  "ex_sim =
     \<lparr>n = 3, k = 2, alpha = 3 / 10, myopic_fraction = 0, relative_utility_threshold = 0,
      absolute_utility_threshold = 1 / 1000, min_steps_to_keep_pool = 5, pool_splitting = True,
      max_iterations = 1000, cost_factor = 7 / 10, agent_activation_order = ''Sequential'',
      extra_cost_type = ''fixed_fraction'', reward_function_option = 0,
      generate_graphs = False, current_era = 0, total_eras = 2,
      adjustable_params = ex_adjustable, running = True, total_stake = 18,
      perceived_active_stake = 18, beta = 9, consecutive_idle_steps = 9,
      current_step_idle = True, min_consecutive_idle_steps_for_convergence = 10,
      pools = [(1, ex_pool)], revision_frequency = 10, id_seq = 1, equilibrium_steps = [],
      pivot_steps = [], steps = 12,
      agents = [(10, ex_operator), (20, ex_delegator), (30, ex_newcomer)],
      player_activation_order = ''Sequential'', common_cost = 0,
      pool_owner_id_mapping = [(1, 10)]\<rparr>"

definition ex_idle_round :: "simulation \<Rightarrow> error + activation" where
  "ex_idle_round s =
     Inr \<lparr>act_pools = pools s, act_agents = agents s, act_id_seq = id_seq s,
          act_pool_owner_id_mapping = pool_owner_id_mapping s, act_committed = False\<rparr>"

definition ex_helpers :: helpers where
  "ex_helpers =
     \<lparr>calculate_pool_stake_NM = (\<lambda>pid ps b kk. b),
      calculate_pool_reward = (\<lambda>st pl a b. st / 4),
      calculate_potential_profit = (\<lambda>st c a b. st / 4 - c),
      calculate_ranks = (\<lambda>d. map (\<lambda>(i, v). (i, i)) d),
      calculate_desirability = (\<lambda>p. potential_profit p * (1 - margin p)),
      calculate_myopic_desirability = (\<lambda>p a b. pool.stake p),
      set_iteration = (\<lambda>xs. xs),
      get_active_stake_pools = (\<lambda>s. sum_list (map (\<lambda>(i, p). pool.stake p) (pools s))),
      schedule_step = ex_idle_round\<rparr>"

text \<open>
  Arguments of a constructor call, and an \<^verbatim>\<open>args.json\<close> that differs from them in the
  cooldown \<^verbatim>\<open>min_steps_to_keep_pool\<close> only.
\<close>

definition ex_args :: sim_args where
  "ex_args =
     \<lparr>arg_n = Scalar 3, arg_k = Scalar 2, arg_alpha = Scalar (3 / 10),
      arg_myopic_fraction = Scalar 0, arg_relative_utility_threshold = Scalar 0,
      arg_absolute_utility_threshold = Scalar (1 / 1000),
      arg_min_steps_to_keep_pool = Scalar 5, arg_pool_splitting = Scalar True,
      arg_max_iterations = Scalar 1000, arg_cost_factor = Scalar (7 / 10),
      arg_agent_activation_order = Scalar ''Random'',
      arg_extra_cost_type = Scalar ''fixed_fraction'', arg_reward_function_option = Scalar 0,
      arg_generate_graphs = Scalar True, arg_abstention_rate = 0,
      arg_abstention_known = False, arg_steps_for_convergence = 10\<rparr>"

definition ex_file_args :: sim_args where
  "ex_file_args = ex_args\<lparr>arg_min_steps_to_keep_pool := Scalar 20\<rparr>"





section \<open>Opening a pool: \<^verbatim>\<open>has_potential_for_pool\<close>\<close>

text \<open>
  C5. \<^verbatim>\<open>has_potential_for_pool\<close> is true exactly when the potential profit of the agent
  is strictly positive and either the saturation capacity of the existing pools,
  \<^verbatim>\<open>len(current_pools) * beta\<close>, is below the total stake, or some existing pool has a
  desirability strictly below that potential profit.
\<close>

theorem has_potential_for_pool_iff:
  "has_potential_for_pool h m self \<longleftrightarrow>
     (calculate_potential_profit h (stake self) (cost self) (alpha m) (beta m) > 0 \<and>
      (real (length (get_pools_list m)) * beta m < total_stake m \<or>
       (\<exists>p \<in> set (get_pools_list m).
          calculate_desirability h p
            < calculate_potential_profit h (stake self) (cost self) (alpha m) (beta m))))"
  by (auto simp: has_potential_for_pool_def Let_def)

text \<open>
  In the example the one pool can take 9 of the total stake 18, and agent 30 would
  earn 4/4 - 1/4: it has potential for a pool.
\<close>

theorem has_potential_for_pool_iff_witness:
  "has_potential_for_pool ex_helpers ex_sim ex_newcomer"
  by (rule iffD2 [OF has_potential_for_pool_iff])
     (simp add: ex_helpers_def ex_sim_def ex_newcomer_def get_pools_list_def)

section \<open>Closing a pool with an id that is not registered\<close>





section \<open>Closing a pool of the registry\<close>










section \<open>Eras: \<^verbatim>\<open>adjust_params\<close>\<close>


lemma apply_override_keeps:
  assumes "\<And>v x. f (setter v x) = f x"
  shows "f (fst (apply_override vs setter st)) = f (fst st)"
  using assms by (cases st) (simp add: apply_override_def split: option.splits)


lemma apply_override_k_keeps:
  assumes "apply_override_k vs st = Inr st2"
    and "\<And>v x. f (x\<lparr>k := v\<rparr>) = f x" and "\<And>v x. f (x\<lparr>beta := v\<rparr>) = f x"
  shows "f (fst st2) = f (fst st)"
  using assms by (cases st) (auto simp: apply_override_k_def Let_def split: option.splits if_splits)

text \<open>An attribute that every round of a list keeps is kept by the loop.\<close>

lemma keeps_foldE:
  assumes "foldE (\<lambda>st action. action st) st rounds = Inr st'" and "\<forall>action \<in> set rounds. keeps f action"
  shows "f (fst st') = f (fst st)"
  using assms
proof (induction rounds arbitrary: st)
  case Nil
  then show ?case by simp
next
  case (Cons r rs)
  then obtain st1 where r: "r st = Inr st1" and rest: "foldE (\<lambda>st action. action st) st1 rs = Inr st'"
    by (auto split: sum.splits)
  from Cons.prems(2) r have "f (fst st1) = f (fst st)"
    unfolding keeps_def by (meson list.set_intros(1))
  moreover from Cons.IH [OF rest] Cons.prems(2) have "f (fst st') = f (fst st1)" by simp
  ultimately show ?case by simp
qed

lemma keeps_override:
  "(\<And>v x. f (setter v x) = f x) \<Longrightarrow> keeps f (\<lambda>st. Inr (apply_override vs setter st))"
  by (auto simp: keeps_def apply_override_keeps)

lemma keeps_override_k:
  "(\<And>v x. f (x\<lparr>k := v\<rparr>) = f x) \<Longrightarrow> (\<And>v x. f (x\<lparr>beta := v\<rparr>) = f x) \<Longrightarrow>
   keeps f (apply_override_k vs)"
  unfolding keeps_def using apply_override_k_keeps by blast

lemma era_overrides_keep:
  assumes "\<And>v x. f (x\<lparr>n := v\<rparr>) = f x" "\<And>v x. f (x\<lparr>k := v\<rparr>) = f x" "\<And>v x. f (x\<lparr>beta := v\<rparr>) = f x"
      "\<And>v x. f (x\<lparr>alpha := v\<rparr>) = f x" "\<And>v x. f (x\<lparr>myopic_fraction := v\<rparr>) = f x"
      "\<And>v x. f (x\<lparr>relative_utility_threshold := v\<rparr>) = f x"
      "\<And>v x. f (x\<lparr>absolute_utility_threshold := v\<rparr>) = f x"
      "\<And>v x. f (x\<lparr>min_steps_to_keep_pool := v\<rparr>) = f x"
      "\<And>v x. f (x\<lparr>pool_splitting := v\<rparr>) = f x"
      "\<And>v x. f (x\<lparr>max_iterations := v\<rparr>) = f x"
      "\<And>v x. f (x\<lparr>cost_factor := v\<rparr>) = f x"
      "\<And>v x. f (x\<lparr>agent_activation_order := v\<rparr>) = f x"
      "\<And>v x. f (x\<lparr>extra_cost_type := v\<rparr>) = f x"
      "\<And>v x. f (x\<lparr>reward_function_option := v\<rparr>) = f x"
      "\<And>v x. f (x\<lparr>generate_graphs := v\<rparr>) = f x"
  shows "\<forall>action \<in> set (era_overrides a). keeps f action"
  unfolding era_overrides_def
  by (simp add: keeps_override keeps_override_k assms)

lemma adjust_params_fold:
  assumes "adjust_params s = Inr s'"
  obtains st' where
    "foldE (\<lambda>st action. action st) (s\<lparr>current_era := current_era s + 1\<rparr>, False)
       (era_overrides (adjustable_params s)) = Inr st'"
    and "s' = (if snd st' then (fst st')\<lparr>pivot_steps := pivot_steps (fst st') @ [steps (fst st')]\<rparr>
               else fst st')"
  using assms by (auto simp: adjust_params_def Let_def split: sum.splits prod.splits)

lemma adjust_params_frame:
  assumes "adjust_params s = Inr s'"
  shows "current_era s' = current_era s + 1" "running s' = running s"
    "total_stake s' = total_stake s" "total_eras s' = total_eras s"
    "consecutive_idle_steps s' = consecutive_idle_steps s"
    "min_consecutive_idle_steps_for_convergence s' = min_consecutive_idle_steps_for_convergence s"
    "adjustable_params s' = adjustable_params s"
proof -
  from assms obtain st' where
    f: "foldE (\<lambda>st action. action st) (s\<lparr>current_era := current_era s + 1\<rparr>, False)
       (era_overrides (adjustable_params s)) = Inr st'"
    and s': "s' = (if snd st' then (fst st')\<lparr>pivot_steps := pivot_steps (fst st') @ [steps (fst st')]\<rparr>
               else fst st')"
    by (rule adjust_params_fold)
  have "current_era (fst st') = current_era s + 1"
    using keeps_foldE [OF f era_overrides_keep, of current_era] by simp
  then show "current_era s' = current_era s + 1" by (simp add: s')
  have "running (fst st') = running s"
    using keeps_foldE [OF f era_overrides_keep, of running] by simp
  then show "running s' = running s" by (simp add: s')
  have "total_stake (fst st') = total_stake s"
    using keeps_foldE [OF f era_overrides_keep, of total_stake] by simp
  then show "total_stake s' = total_stake s" by (simp add: s')
  have "total_eras (fst st') = total_eras s"
    using keeps_foldE [OF f era_overrides_keep, of total_eras] by simp
  then show "total_eras s' = total_eras s" by (simp add: s')
  have "consecutive_idle_steps (fst st') = consecutive_idle_steps s"
    using keeps_foldE [OF f era_overrides_keep, of consecutive_idle_steps] by simp
  then show "consecutive_idle_steps s' = consecutive_idle_steps s" by (simp add: s')
  have "min_consecutive_idle_steps_for_convergence (fst st') = min_consecutive_idle_steps_for_convergence s"
    using keeps_foldE [OF f era_overrides_keep, of min_consecutive_idle_steps_for_convergence] by simp
  then show "min_consecutive_idle_steps_for_convergence s' = min_consecutive_idle_steps_for_convergence s"
    by (simp add: s')
  have "adjustable_params (fst st') = adjustable_params s"
    using keeps_foldE [OF f era_overrides_keep, of adjustable_params] by simp
  then show "adjustable_params s' = adjustable_params s" by (simp add: s')
qed







lemma adjust_params_k:
  assumes ap: "adjust_params s = Inr s'"
  shows "k s' = (case adj_k (adjustable_params s) of
                   None \<Rightarrow> k s
                 | Some vs \<Rightarrow> if int (length vs) > current_era s + 1
                             then py_int (vs ! nat (current_era s + 1)) else k s)"
    and "beta s' =
           (if \<exists>vs. adj_k (adjustable_params s) = Some vs \<and> int (length vs) > current_era s + 1
            then total_stake s' / real_of_int (k s') else beta s)"
    and "(\<exists>vs. adj_k (adjustable_params s) = Some vs \<and> int (length vs) > current_era s + 1)
           \<longrightarrow> k s' \<noteq> 0"
proof -
  let ?a = "adjustable_params s"
  let ?e = "current_era s + 1"
  from ap obtain st' where
    f: "foldE (\<lambda>st action. action st) (s\<lparr>current_era := ?e\<rparr>, False) (era_overrides ?a) = Inr st'"
    and s': "s' = (if snd st' then (fst st')\<lparr>pivot_steps := pivot_steps (fst st') @ [steps (fst st')]\<rparr>
               else fst st')"
    by (rule adjust_params_fold)
  define st1 where "st1 = apply_override (adj_n ?a) (\<lambda>v x. x\<lparr>n := v\<rparr>) (s\<lparr>current_era := ?e\<rparr>, False)"
  have split: "era_overrides ?a =
      (\<lambda>st. Inr (apply_override (adj_n ?a) (\<lambda>v x. x\<lparr>n := v\<rparr>) st)) # apply_override_k (adj_k ?a)
        # drop 2 (era_overrides ?a)"
    by (simp add: era_overrides_def)
  from f obtain st2 where st2: "apply_override_k (adj_k ?a) st1 = Inr st2"
    and rest: "foldE (\<lambda>st action. action st) st2 (drop 2 (era_overrides ?a)) = Inr st'"
    by (subst (asm) split) (auto simp: st1_def split: sum.splits)
  have rest_keeps: "\<forall>action \<in> set (drop 2 (era_overrides ?a)). keeps f action"
    if "\<And>v x. f (x\<lparr>alpha := v\<rparr>) = f x" "\<And>v x. f (x\<lparr>myopic_fraction := v\<rparr>) = f x"
      "\<And>v x. f (x\<lparr>relative_utility_threshold := v\<rparr>) = f x"
      "\<And>v x. f (x\<lparr>absolute_utility_threshold := v\<rparr>) = f x"
      "\<And>v x. f (x\<lparr>min_steps_to_keep_pool := v\<rparr>) = f x"
      "\<And>v x. f (x\<lparr>pool_splitting := v\<rparr>) = f x"
      "\<And>v x. f (x\<lparr>max_iterations := v\<rparr>) = f x"
      "\<And>v x. f (x\<lparr>cost_factor := v\<rparr>) = f x"
      "\<And>v x. f (x\<lparr>agent_activation_order := v\<rparr>) = f x"
      "\<And>v x. f (x\<lparr>extra_cost_type := v\<rparr>) = f x"
      "\<And>v x. f (x\<lparr>reward_function_option := v\<rparr>) = f x"
      "\<And>v x. f (x\<lparr>generate_graphs := v\<rparr>) = f x" for f :: "simulation \<Rightarrow> 'b"
    using that by (simp add: era_overrides_def keeps_override)
  have k': "k s' = k (fst st2)" and b': "beta s' = beta (fst st2)" and t': "total_stake s' = total_stake (fst st2)"
    using keeps_foldE [OF rest rest_keeps, of k] keeps_foldE [OF rest rest_keeps, of beta]
      keeps_foldE [OF rest rest_keeps, of total_stake]
    by (simp_all add: s')
  have st1: "k (fst st1) = k s" "beta (fst st1) = beta s" "current_era (fst st1) = ?e"
    "total_stake (fst st1) = total_stake s"
    by (simp_all add: st1_def apply_override_keeps)
  obtain x c where xc: "st1 = (x, c)" by (cases st1)
  with st1 have x: "k x = k s" "beta x = beta s" "current_era x = ?e" "total_stake x = total_stake s"
    by simp_all
  show "k s' = (case adj_k ?a of
                   None \<Rightarrow> k s
                 | Some vs \<Rightarrow> if int (length vs) > ?e then py_int (vs ! nat ?e) else k s)"
    using st2 x unfolding k' xc
    by (auto simp: apply_override_k_def Let_def split: option.splits if_splits)
  show "beta s' = (if \<exists>vs. adj_k ?a = Some vs \<and> int (length vs) > ?e
            then total_stake s' / real_of_int (k s') else beta s)"
    using st2 x unfolding k' b' t' xc
    by (auto simp: apply_override_k_def Let_def split: option.splits if_splits)
  show "(\<exists>vs. adj_k ?a = Some vs \<and> int (length vs) > ?e) \<longrightarrow> k s' \<noteq> 0"
    using st2 x unfolding k' xc
    by (auto simp: apply_override_k_def Let_def split: option.splits if_splits)
qed

lemma adjust_params_returns:
  assumes "\<forall>vs. adj_k (adjustable_params s) = Some vs \<and> int (length vs) > current_era s + 1
             \<longrightarrow> py_int (vs ! nat (current_era s + 1)) \<noteq> 0"
  shows "\<exists>s'. adjust_params s = Inr s'"
proof -
  let ?a = "adjustable_params s"
  let ?e = "current_era s + 1"
  define st1 where "st1 = apply_override (adj_n ?a) (\<lambda>v x. x\<lparr>n := v\<rparr>) (s\<lparr>current_era := ?e\<rparr>, False)"
  have st1: "current_era (fst st1) = ?e"
    by (simp_all add: st1_def apply_override_keeps)
  obtain x c where xc: "st1 = (x, c)" by (cases st1)
  with st1 have x: "current_era x = ?e" by simp
  from assms x have "\<exists>st2. apply_override_k (adj_k ?a) st1 = Inr st2"
    unfolding xc by (auto simp: apply_override_k_def Let_def split: option.splits)
  then obtain st2 where st2: "apply_override_k (adj_k ?a) st1 = Inr st2" ..
  have "\<exists>st'. foldE (\<lambda>st action. action st) (s\<lparr>current_era := ?e\<rparr>, False) (era_overrides ?a) = Inr st'"
    using st2 by (simp add: era_overrides_def st1_def)
  then show ?thesis
    by (auto simp: adjust_params_def Let_def split: prod.splits)
qed



section \<open>The construction and the rounds of a simulation\<close>

lemma bindE_Inr: "bindE r f = Inr v \<Longrightarrow> \<exists>x. r = Inr x \<and> f x = Inr v"
  by (cases r) (auto simp: bindE_def)

lemma Simulation_init_beta:
  assumes "Simulation_init cargs from_file fargs ags st an cc = Inr s"
  shows "beta s = total_stake s / real_of_int (k s)"
  using assms unfolding Simulation_init_def Let_def
  apply -
  apply (drule bindE_Inr, erule exE, erule conjE)+
  apply (auto split: if_splits arg.splits)
  done

lemma Simulation_init_threshold:
  assumes "Simulation_init cargs from_file fargs ags st an cc = Inr s"
  shows "\<exists>p. arg_min_steps_to_keep_pool cargs = Scalar p \<and>
     min_consecutive_idle_steps_for_convergence s =
       max (p + 1) (arg_steps_for_convergence (if from_file then fargs else cargs)) \<and>
     era_value (arg_min_steps_to_keep_pool (if from_file then fargs else cargs)) = Inr (min_steps_to_keep_pool s)"
  using assms unfolding Simulation_init_def Let_def
  apply -
  apply (drule bindE_Inr, erule exE, erule conjE)+
  apply (auto split: if_splits arg.splits)
  done

lemma conclude_round_not_idle:
  "\<not> current_step_idle s2 \<Longrightarrow>
   conclude_round cs s2 = Inr (s2\<lparr>consecutive_idle_steps := 0, current_step_idle := True\<rparr>)"
  by (simp add: conclude_round_def)

lemma conclude_round_idle_counter:
  assumes "current_step_idle s2" "conclude_round cs s2 = Inr s'"
  shows "consecutive_idle_steps s' = consecutive_idle_steps s2 + 1"
  using assms
  by (auto simp: conclude_round_def Let_def wrap_up_execution_def adjust_params_frame
      split: if_splits sum.splits)



lemma revise_beliefs_frame:
  assumes "revise_beliefs h s = Inr s'"
  shows "beta s' = beta s" "total_stake s' = total_stake s" "current_era s' = current_era s"
    "k s' = \<lceil>py_round (get_active_stake_pools h s / beta s) 12\<rceil>"
    "perceived_active_stake s' = get_active_stake_pools h s"
  using assms by (auto simp: revise_beliefs_def Let_def split: if_splits)





lemma step_round:
  assumes "steps s < max_iterations s"
    and "(if steps s mod revision_frequency s = 0 \<and> steps s > 0 then revise_beliefs h s else Inr s)
           = Inr s1"
    and "schedule_step h s1 = Inr a"
  shows "step h s = conclude_round (steps s) (after_activation s1 a)"
  using assms by (simp add: step_def Let_def)

section \<open>The saturation threshold after an update of \<open>k\<close>\<close>

text \<open>
  C2, as the code has it. After the construction and after an era transition that has a
  value of \<open>k\<close> for the new era, \<open>beta = total_stake / k\<close> holds; an era transition
  without one leaves \<open>k\<close> and \<open>beta\<close> as they are. \<^verbatim>\<open>revise_beliefs\<close> sets \<open>k\<close> to the
  rounded-up quotient of the delegated stake and \<open>beta\<close>, and leaves \<open>beta\<close> and the total
  stake unchanged (its comment says so), so the equation need not hold after it.
\<close>

theorem beta_after_k_update:
  "(Simulation_init cargs from_file fargs ags sampled an cc = Inr s0 \<longrightarrow>
      beta s0 = total_stake s0 / real_of_int (k s0)) \<and>
   (adjust_params s = Inr s' \<longrightarrow>
      (if \<exists>vs. adj_k (adjustable_params s) = Some vs \<and> int (length vs) > current_era s + 1
       then beta s' = total_stake s' / real_of_int (k s')
       else k s' = k s \<and> beta s' = beta s)) \<and>
   (revise_beliefs h s = Inr s'' \<longrightarrow>
      k s'' = \<lceil>py_round (get_active_stake_pools h s / beta s) 12\<rceil> \<and>
      beta s'' = beta s \<and> total_stake s'' = total_stake s)"
proof -
  have 1: "beta s0 = total_stake s0 / real_of_int (k s0)"
    if "Simulation_init cargs from_file fargs ags sampled an cc = Inr s0"
    using that by (rule Simulation_init_beta)
  have 2: "if \<exists>vs. adj_k (adjustable_params s) = Some vs \<and> int (length vs) > current_era s + 1
        then beta s' = total_stake s' / real_of_int (k s')
        else k s' = k s \<and> beta s' = beta s"
    if ap: "adjust_params s = Inr s'"
    using adjust_params_k(1,2) [OF ap] by (auto split: option.splits)
  have 3: "k s'' = \<lceil>py_round (get_active_stake_pools h s / beta s) 12\<rceil> \<and>
      beta s'' = beta s \<and> total_stake s'' = total_stake s"
    if "revise_beliefs h s = Inr s''"
    using that by (simp add: revise_beliefs_frame)
  from 1 2 3 show ?thesis by blast
qed

text \<open>
  In the example the constructor gives \<open>beta = 9 / 2\<close> for a stake of 9 and \<open>k = 2\<close>, the
  transition to era 1 sets \<open>k = 3\<close> and \<open>beta = 18 / 3\<close>, and the revision of beliefs
  keeps \<open>beta = 9\<close>.
\<close>

theorem beta_after_k_update_witness:
  "(\<exists>s0. Simulation_init ex_args False ex_file_args [] 9 ''Random'' 0 = Inr s0 \<and> beta s0 = 9 / 2) \<and>
   (\<exists>s'. adjust_params ex_sim = Inr s' \<and> beta s' = 6) \<and>
   (\<exists>s''. revise_beliefs ex_helpers ex_sim = Inr s'' \<and> beta s'' = 9)"
proof (intro conjI)
  have "\<exists>s0. Simulation_init ex_args False ex_file_args [] 9 ''Random'' 0 = Inr s0 \<and>
      total_stake s0 = 9 \<and> k s0 = 2"
    by (simp add: Simulation_init_def ex_args_def bindE_def era_value_def
        agent_activation_orders_def py_int_def Let_def)
  then obtain s0 where s0: "Simulation_init ex_args False ex_file_args [] 9 ''Random'' 0 = Inr s0"
    and v: "total_stake s0 = 9" "k s0 = 2" by blast
  from beta_after_k_update [of ex_args False ex_file_args "[]" 9 "''Random''" 0 s0] s0
  have "beta s0 = total_stake s0 / real_of_int (k s0)" by blast
  with s0 v show "\<exists>s0. Simulation_init ex_args False ex_file_args [] 9 ''Random'' 0 = Inr s0 \<and>
      beta s0 = 9 / 2" by auto
next
  have "\<exists>s'. adjust_params ex_sim = Inr s'"
    by (rule adjust_params_returns) (simp add: ex_sim_def ex_adjustable_def py_int_def)
  then obtain s' where s': "adjust_params ex_sim = Inr s'" ..
  have kv: "k s' = 3" and tv: "total_stake s' = 18"
    using adjust_params_k(1) [OF s'] adjust_params_frame(3) [OF s']
    by (simp_all add: ex_sim_def ex_adjustable_def py_int_def)
  from beta_after_k_update [where s = ex_sim and s' = s'] s'
  have "beta s' = total_stake s' / real_of_int (k s')"
    by (simp add: ex_sim_def ex_adjustable_def)
  with s' kv tv show "\<exists>s'. adjust_params ex_sim = Inr s' \<and> beta s' = 6" by auto
next
  have "\<exists>s''. revise_beliefs ex_helpers ex_sim = Inr s''"
    by (simp add: revise_beliefs_def ex_sim_def Let_def)
  then obtain s'' where s'': "revise_beliefs ex_helpers ex_sim = Inr s''" ..
  from beta_after_k_update [where h = ex_helpers and s = ex_sim and s'' = s''] s''
  have "beta s'' = beta ex_sim" by blast
  with s'' show "\<exists>s''. revise_beliefs ex_helpers ex_sim = Inr s'' \<and> beta s'' = 9"
    by (auto simp: ex_sim_def)
qed

text \<open>
  The claim as it is written fails at the revision of beliefs: with a total stake of 18,
  \<open>k = 2\<close> and \<open>beta = 9\<close>, a delegated stake of 5 gives \<open>k = 1\<close>, and \<open>beta\<close> is still 9,
  not 18.
\<close>

theorem revise_beliefs_counterexample:
  "revise_beliefs ex_helpers ex_sim = Inr (ex_sim\<lparr>perceived_active_stake := 5, k := 1\<rparr>) \<and>
   beta (ex_sim\<lparr>perceived_active_stake := 5, k := 1\<rparr>)
     \<noteq> total_stake (ex_sim\<lparr>perceived_active_stake := 5, k := 1\<rparr>)
        / real_of_int (k (ex_sim\<lparr>perceived_active_stake := 5, k := 1\<rparr>))"
  by (simp add: revise_beliefs_def ex_helpers_def ex_sim_def ex_pool_def py_round_def
      round_half_even_def Let_def)

section \<open>Convergence and the transition between eras\<close>



section \<open>The convergence threshold and the idle counter\<close>

text \<open>
  When the arguments are those of the call, the threshold is the larger of the cooldown
  plus one and \<^verbatim>\<open>steps_for_convergence\<close>.
\<close>

lemma convergence_threshold_of_call:
  assumes "Simulation_init cargs False fargs ags sampled an cc = Inr s"
  shows "min_consecutive_idle_steps_for_convergence s =
           max (min_steps_to_keep_pool s + 1) (arg_steps_for_convergence cargs)"
    and "min_steps_to_keep_pool s + 1 \<le> min_consecutive_idle_steps_for_convergence s"
  using Simulation_init_threshold [OF assms] by (auto simp: era_value_def)

text \<open>
  An idle round adds one to the idle counter, any other round sets it to zero, and
  \<^verbatim>\<open>has_converged\<close> compares the counter with the threshold.
\<close>

lemma idle_counter:
  "current_step_idle s \<Longrightarrow> conclude_round cs s = Inr s' \<Longrightarrow>
     consecutive_idle_steps s' = consecutive_idle_steps s + 1"
  "\<not> current_step_idle s \<Longrightarrow> conclude_round cs s = Inr s' \<Longrightarrow> consecutive_idle_steps s' = 0"
  "has_converged s \<longleftrightarrow> min_consecutive_idle_steps_for_convergence s \<le> consecutive_idle_steps s"
  by (auto simp: conclude_round_idle_counter conclude_round_not_idle has_converged_def)

text \<open>
  C7. The threshold is meant to be at least one more than the cooldown of a newly opened
  pool. \<^verbatim>\<open>__init__\<close> computes it from its parameter \<^verbatim>\<open>min_steps_to_keep_pool\<close>, while the
  cooldown (and \<^verbatim>\<open>steps_for_convergence\<close> in the same expression) is read from
  \<^verbatim>\<open>args\<close>: with \<^verbatim>\<open>input_from_file\<close> the two differ. A call with the default parameter 5
  and a file that sets the cooldown to 20 and \<^verbatim>\<open>steps_for_convergence\<close> to 10 gives the
  threshold 10, below the cooldown 20.
\<close>

theorem convergence_threshold_failing_input:
  "map_sum id (\<lambda>s. (min_consecutive_idle_steps_for_convergence s, min_steps_to_keep_pool s))
     (Simulation_init ex_args True ex_file_args [] 9 ''Random'' 0) = Inr (10, 20)"
  by (simp add: Simulation_init_def ex_args_def ex_file_args_def bindE_def era_value_def
      agent_activation_orders_def py_int_def Let_def)

section \<open>Loops that can raise\<close>

lemma case_sum_Inr:
  "(case r of Inl e \<Rightarrow> Inl e | Inr v \<Rightarrow> f v) = Inr y \<Longrightarrow> \<exists>v. r = Inr v \<and> f v = Inr y"
  by (cases r) auto

lemma foldE_invariant:
  assumes "foldE f s xs = Inr s'" and "P s"
    and "\<And>s x s'. P s \<Longrightarrow> x \<in> set xs \<Longrightarrow> f s x = Inr s' \<Longrightarrow> P s'"
  shows "P s'"
  using assms
proof (induction xs arbitrary: s)
  case Nil
  then show ?case by simp
next
  case (Cons x xs)
  from Cons.prems(1) obtain s1 where s1: "f s x = Inr s1" and r: "foldE f s1 xs = Inr s'"
    by (auto split: sum.splits)
  have "P s1" by (rule Cons.prems(3) [OF Cons.prems(2) _ s1]) simp
  show ?case
  proof (rule Cons.IH [OF r \<open>P s1\<close>])
    fix t y t'
    assume "P t" "y \<in> set xs" "f t y = Inr t'"
    then show "P t'" using Cons.prems(3) [of t y t'] by simp
  qed
qed

section \<open>The choice of \<^verbatim>\<open>update_strategy\<close>\<close>

lemma max_from_split:
  "\<exists>pre post. b # xs = pre @ max_from f b xs # post \<and>
     (\<forall>x \<in> set pre. f x < f (max_from f b xs)) \<and>
     (\<forall>x \<in> set post. f x \<le> f (max_from f b xs))"
proof (induction xs arbitrary: b)
  case Nil
  have "[b] = [] @ max_from f b [] # []" by simp
  then show ?case by fastforce
next
  case (Cons x xs)
  show ?case
  proof (cases "f b < f x")
    case True
    then have r: "max_from f b (x # xs) = max_from f x xs" by simp
    from Cons.IH [of x] obtain pre post where
      s: "x # xs = pre @ max_from f x xs # post"
      and p: "\<forall>y \<in> set pre. f y < f (max_from f x xs)" "\<forall>y \<in> set post. f y \<le> f (max_from f x xs)"
      by blast
    have "x \<in> set (pre @ max_from f x xs # post)" using s by (metis list.set_intros(1))
    with p have "f x \<le> f (max_from f x xs)" by auto
    with True have lt: "f b < f (max_from f x xs)" by simp
    have e: "b # x # xs = (b # pre) @ max_from f x xs # post" using s by simp
    from lt p have "\<forall>y \<in> set (b # pre). f y < f (max_from f x xs)" by simp
    with e p(2) show ?thesis unfolding r by blast
  next
    case False
    then have r: "max_from f b (x # xs) = max_from f b xs" by simp
    from Cons.IH [of b] obtain pre post where
      s: "b # xs = pre @ max_from f b xs # post"
      and p: "\<forall>y \<in> set pre. f y < f (max_from f b xs)" "\<forall>y \<in> set post. f y \<le> f (max_from f b xs)"
      by blast
    show ?thesis
    proof (cases pre)
      case Nil
      with s have b: "max_from f b xs = b" and xs: "xs = post"
        by (metis append_Nil list.inject)+
      have e: "b # x # xs = [] @ max_from f b xs # (x # post)" using b xs by simp
      from False b p(2) have "\<forall>y \<in> set (x # post). f y \<le> f (max_from f b xs)" by simp
      with e show ?thesis unfolding r by (metis empty_iff list.set(1))
    next
      case (Cons c pre')
      with s have c: "c = b" and xs: "xs = pre' @ max_from f b xs # post"
        by (metis append_Cons list.inject)+
      from p Cons c have "f b < f (max_from f b xs)" by simp
      with False have lt: "f x < f (max_from f b xs)" by simp
      have e: "b # x # xs = (b # x # pre') @ max_from f b xs # post" using xs by simp
      from lt p(1) Cons c have "\<forall>y \<in> set (b # x # pre'). f y < f (max_from f b xs)" by simp
      with e p(2) show ?thesis unfolding r by blast
    qed
  qed
qed

lemma calculate_delegator_utility_same_economy:
  "same_economy m m' \<Longrightarrow>
   calculate_delegator_utility h m' self = calculate_delegator_utility h m self"
  by (intro ext) (simp add: same_economy_def calculate_delegator_utility_def)

lemma calculate_operator_utility_by_pool_same_economy:
  "same_economy m m' \<Longrightarrow>
   calculate_operator_utility_by_pool h m' self = calculate_operator_utility_by_pool h m self"
  by (intro ext) (simp add: same_economy_def calculate_operator_utility_by_pool_def)

lemma calculate_utility_same_economy:
  assumes "same_economy m m'"
  shows "calculate_utility h m' self s = calculate_utility h m self s"
proof -
  from assms have p: "pools m' = pools m" by (simp add: same_economy_def)
  show ?thesis
    unfolding calculate_utility_def delegation_term_def calculate_operator_utility_by_strategy_def
      calculate_delegator_utility_same_economy [OF assms]
      calculate_operator_utility_by_pool_same_economy [OF assms] p ..
qed

lemma same_economy_refl: "same_economy m m"
  by (simp add: same_economy_def)

lemma same_economy_trans: "same_economy a b \<Longrightarrow> same_economy b c \<Longrightarrow> same_economy a c"
  by (simp add: same_economy_def)

lemma open_hypothetical_pool_economy:
  "open_hypothetical_pool h self ps c (m, ow, ms) i = Inr (m', ow', ms') \<Longrightarrow> same_economy m m'"
  by (auto simp: open_hypothetical_pool_def get_next_pool_id_def same_economy_def Let_def
      split: if_splits sum.splits)

lemma find_operator_move_economy:
  assumes "find_operator_move h m self np owned = Inr (m', s)"
  shows "same_economy m m'"
proof -
  from assms have "\<exists>ps c st1 ow ms.
      foldE (open_hypothetical_pool h self ps c) (m, st1) [length (fst st1)..<nat np] = Inr (m', ow, ms)"
    unfolding find_operator_move_def Let_def
    apply -
    apply (drule case_sum_Inr, erule exE, erule conjE)+
    apply (simp only: split_beta prod.collapse)
    apply (drule case_sum_Inr, erule exE, erule conjE)+
    apply (simp only: split_beta prod.collapse)
    apply (drule case_sum_Inr, erule exE, erule conjE)+
    apply (metis fst_conv prod.collapse sum.inject(2))
    done
  then obtain ps c st1 ow ms where
    f: "foldE (open_hypothetical_pool h self ps c) (m, st1) [length (fst st1)..<nat np] = Inr (m', ow, ms)"
    by blast
  have step: "same_economy m (fst st')"
    if "same_economy m (fst st)" "open_hypothetical_pool h self ps c st i = Inr st'" for st i st'
  proof -
    obtain a b d where st: "st = (a, b, d)" by (cases st)
    obtain a' b' d' where st': "st' = (a', b', d')" by (cases st')
    from that(2) have "same_economy a a'"
      unfolding st st' by (rule open_hypothetical_pool_economy)
    with that(1) show ?thesis unfolding st st' using same_economy_trans by fastforce
  qed
  have "same_economy m (fst (m', ow, ms))"
    by (rule foldE_invariant [OF f, where P = "\<lambda>st. same_economy m (fst st)"])
      (simp add: same_economy_refl, erule (1) step)
  then show ?thesis by simp
qed

lemma find_operator_moves_economy:
  assumes "find_operator_moves h m self = Inr (m', moves)"
  shows "same_economy m m'"
proof -
  define body where "body = (\<lambda>(m1 :: simulation, moves :: (int \<times> strategy) list) np.
                   case determine_current_pools h self np of
                     Inl e \<Rightarrow> Inl e
                   | Inr owned \<Rightarrow>
                       (case find_operator_move h m1 self np owned of
                          Inl e \<Rightarrow> Inl e
                        | Inr (m2, s) \<Rightarrow> Inr (m2, AList.update np s moves)))"
  from assms obtain opts where
    f: "foldE body (m, []) (set_iteration h opts) = Inr (m', moves)"
    by (auto simp: find_operator_moves_def body_def split: sum.splits)
  have step: "same_economy m (fst st')"
    if "same_economy m (fst st)" "body st np = Inr st'" for st np st'
  proof -
    obtain m1 mv where st: "st = (m1, mv)" by (cases st)
    from that(2) obtain owned m2 s where "find_operator_move h m1 self np owned = Inr (m2, s)"
      and "st' = (m2, AList.update np s mv)"
      by (auto simp: body_def st split: sum.splits)
    with that(1) st show ?thesis
      using find_operator_move_economy same_economy_trans by fastforce
  qed
  have "same_economy m (fst (m', moves))"
    by (rule foldE_invariant [OF f, where P = "\<lambda>st. same_economy m (fst st)"])
      (simp add: same_economy_refl, erule (1) step)
  then show ?thesis by simp
qed

lemma best_operator_move_result:
  assumes "best_operator_move h m self ss = Inr (mu, ms, lst)"
  shows "case ms of None \<Rightarrow> mu = 0 | Some s \<Rightarrow> calculate_utility h m self s = Inr mu \<and> 0 < mu"
proof -
  define P where "P = (\<lambda>st :: real \<times> strategy option \<times> strategy option.
     case fst (snd st) of None \<Rightarrow> fst st = 0
     | Some s \<Rightarrow> calculate_utility h m self s = Inr (fst st) \<and> 0 < fst st)"
  define body where "body =
    (\<lambda>(max_operator_utility :: real, max_operator_strategy :: strategy option,
        last_strategy :: strategy option) operator_strategy.
              case calculate_utility h m self operator_strategy of
                Inl e \<Rightarrow> Inl e
              | Inr operator_utility \<Rightarrow>
                  Inr (if operator_utility > max_operator_utility
                       then (operator_utility, Some operator_strategy, Some operator_strategy)
                       else (max_operator_utility, max_operator_strategy,
                             Some operator_strategy)))"
  have f: "foldE body (0, None, None) ss = Inr (mu, ms, lst)"
    using assms by (simp add: best_operator_move_def body_def)
  have step: "P st'" if "P st" "body st x = Inr st'" for st x st'
  proof -
    obtain a b c where st: "st = (a, b, c)" by (cases st)
    from that(2) obtain u where u: "calculate_utility h m self x = Inr u"
      and st': "st' = (if u > a then (u, Some x, Some x) else (a, b, Some x))"
      by (auto simp: body_def st split: sum.splits)
    show ?thesis
    proof (cases "u > a")
      case True
      have "0 \<le> a" using that(1) by (auto simp: P_def st split: option.splits)
      with True u st' show ?thesis by (simp add: P_def)
    next
      case False
      with st' that(1) show ?thesis by (simp add: P_def st split: option.splits)
    qed
  qed
  have "P (mu, ms, lst)"
    by (rule foldE_invariant [OF f, where P = P]) (simp add: P_def, erule (1) step)
  then show ?thesis by (simp add: P_def split: option.splits)
qed

lemma consider_moves_result:
  assumes "consider_moves h m self = Inr (m2, pm, lst)"
  shows "\<exists>U Dpart Opart.
     calculate_utility h m self (strategy self) = Inr U \<and>
     pm = (''current'', baseline m U, Some (strategy self)) # Dpart @ Opart \<and>
     (Dpart = [] \<or> (\<exists>du ds. Dpart = [(''delegator'', du, Some ds)] \<and>
         find_delegation_move_desirability h m self None = Inr ds \<and>
         calculate_utility h m self ds = Inr du)) \<and>
     (Opart = [] \<or> (\<exists>ou os. Opart = [(''operator'', ou, os)] \<and>
         (case os of None \<Rightarrow> ou = 0
          | Some s \<Rightarrow> calculate_utility h m self s = Inr ou \<and> 0 < ou)))"
proof -
  from assms obtain U where U: "calculate_utility h m self (strategy self) = Inr U"
    unfolding consider_moves_def by (auto dest!: case_sum_Inr)
  define c where "c = (''current'', baseline m U, Some (strategy self))"
  define dres where "dres = (if remaining_min_steps_to_keep_pool self = 0
               then (case find_delegation_move_desirability h m self None of
                       Inl e \<Rightarrow> Inl e
                     | Inr delegator_strategy \<Rightarrow>
                         (case calculate_utility h m self delegator_strategy of
                            Inl e \<Rightarrow> Inl e
                          | Inr delegator_utility \<Rightarrow>
                              Inr (AList.update ''delegator''
                                     (delegator_utility, Some delegator_strategy) [c])))
               else Inr [c])"
  define ores where "ores = (\<lambda>pm1. if is_pool_operator (strategy self) \<or> has_potential_for_pool h m self
              then (case find_operator_moves h m self of
                      Inl e \<Rightarrow> Inl e
                    | Inr (m1, operator_strategies) \<Rightarrow>
                        (case best_operator_move h m1 self (map snd operator_strategies) of
                           Inl e \<Rightarrow> Inl e
                         | Inr (max_operator_utility, max_operator_strategy, last_strategy) \<Rightarrow>
                             Inr (m1,
                                  AList.update ''operator''
                                    (max_operator_utility, max_operator_strategy) pm1,
                                  last_strategy)))
              else Inr (m, pm1, None))"
  have eq: "consider_moves h m self = (case dres of Inl e \<Rightarrow> Inl e | Inr pm1 \<Rightarrow> ores pm1)"
    unfolding consider_moves_def dres_def ores_def c_def baseline_def by (simp add: U Let_def)
  with assms obtain pm1 where pm1: "dres = Inr pm1" and o: "ores pm1 = Inr (m2, pm, lst)"
    by (auto dest!: case_sum_Inr)
  have Dpart: "\<exists>Dpart. pm1 = c # Dpart \<and> (Dpart = [] \<or> (\<exists>du ds. Dpart = [(''delegator'', du, Some ds)] \<and>
         find_delegation_move_desirability h m self None = Inr ds \<and>
         calculate_utility h m self ds = Inr du))"
  proof (cases "remaining_min_steps_to_keep_pool self = 0")
    case True
    with pm1 obtain ds du where "find_delegation_move_desirability h m self None = Inr ds"
      "calculate_utility h m self ds = Inr du"
      "pm1 = AList.update ''delegator'' (du, Some ds) [c]"
      unfolding dres_def by (auto dest!: case_sum_Inr)
    then show ?thesis by (simp add: c_def)
  next
    case False
    with pm1 show ?thesis by (auto simp: dres_def)
  qed
  then obtain Dpart where pm1D: "pm1 = c # Dpart" and Dp: "Dpart = [] \<or> (\<exists>du ds. Dpart = [(''delegator'', du, Some ds)] \<and>
         find_delegation_move_desirability h m self None = Inr ds \<and>
         calculate_utility h m self ds = Inr du)" by blast
  have Opart: "\<exists>Opart. pm = pm1 @ Opart \<and> (Opart = [] \<or> (\<exists>ou os. Opart = [(''operator'', ou, os)] \<and>
         (case os of None \<Rightarrow> ou = 0
          | Some s \<Rightarrow> calculate_utility h m self s = Inr ou \<and> 0 < ou)))"
  proof (cases "is_pool_operator (strategy self) \<or> has_potential_for_pool h m self")
    case True
    with o have "\<exists>m1 sts mu ms lst. find_operator_moves h m self = Inr (m1, sts) \<and>
        best_operator_move h m1 self (map snd sts) = Inr (mu, ms, lst) \<and>
        pm = AList.update ''operator'' (mu, ms) pm1"
      unfolding ores_def
      apply (simp only: if_True)
      apply (drule case_sum_Inr, erule exE, erule conjE)
      apply (simp only: split_beta)
      apply (drule case_sum_Inr, erule exE, erule conjE)
      apply (simp only: split_beta)
      apply (metis prod.collapse prod.inject sum.inject(2))
      done
    then obtain m1 sts mu ms lst where fo: "find_operator_moves h m self = Inr (m1, sts)"
      and bo: "best_operator_move h m1 self (map snd sts) = Inr (mu, ms, lst)"
      and pm: "pm = AList.update ''operator'' (mu, ms) pm1" by blast
    have ec: "same_economy m m1" using fo by (rule find_operator_moves_economy)
    have "case ms of None \<Rightarrow> mu = 0 | Some s \<Rightarrow> calculate_utility h m self s = Inr mu \<and> 0 < mu"
      using best_operator_move_result [OF bo]
      by (simp add: calculate_utility_same_economy [OF ec] split: option.splits)
    moreover have "pm = pm1 @ [(''operator'', mu, ms)]"
      using Dp unfolding pm pm1D c_def by auto
    ultimately show ?thesis by blast
  next
    case False
    with o show ?thesis by (auto simp: ores_def)
  qed
  with U pm1D Dp show ?thesis unfolding c_def by auto
qed

lemma possible_moves_order:
  assumes "pm = (''current'', b, s0) # Dpart @ Opart"
    and "Dpart = [] \<or> (\<exists>du ds. Dpart = [(''delegator'', du, ds)])"
    and "Opart = [] \<or> (\<exists>ou os. Opart = [(''operator'', ou, os)])"
  shows "sorted_wrt (\<lambda>x y. branch_rank (fst x) < branch_rank (fst y)) pm"
    and "fst ` set pm \<subseteq> {''current'', ''delegator'', ''operator''}"
    and "distinct (map fst pm)"
  using assms by (auto simp: branch_rank_def)

text \<open>
  C1. When \<^verbatim>\<open>update_strategy\<close> returns, the dictionary \<open>possible_moves\<close> holds the
  current strategy with the inflated baseline \<open>max ((1 + relative) * U) (U + absolute)\<close>
  and, for the other branches, a strategy with its own utility; the chosen option has a
  maximal utility, every branch before it in the order current, delegator, operator has a
  strictly smaller one (so a tie goes to the earlier branch), \<^verbatim>\<open>new_strategy\<close> is
  \<open>None\<close> when the option is \<open>current\<close> and the strategy of the option otherwise, and
  a staged strategy has a utility strictly above the baseline.
\<close>

theorem update_strategy_choice:
  assumes "update_strategy h m self = Inr (m', self')"
  shows "\<exists>U m2 pm lst opt u_opt s_opt.
      calculate_utility h m self (strategy self) = Inr U \<and>
      consider_moves h m self = Inr (m2, pm, lst) \<and>
      max_utility_option pm = Inr opt \<and>
      fst ` set pm \<subseteq> {''current'', ''delegator'', ''operator''} \<and> distinct (map fst pm) \<and>
      map_of pm ''current'' = Some (baseline m U, Some (strategy self)) \<and>
      (\<forall>key u s. key \<noteq> ''current'' \<and> map_of pm key = Some (u, Some s) \<longrightarrow>
         calculate_utility h m self s = Inr u) \<and>
      map_of pm opt = Some (u_opt, s_opt) \<and>
      (\<forall>key u s. map_of pm key = Some (u, s) \<longrightarrow>
         u \<le> u_opt \<and> (branch_rank key < branch_rank opt \<longrightarrow> u < u_opt)) \<and>
      new_strategy self' = (if opt = ''current'' then None else s_opt) \<and>
      (new_strategy self' \<noteq> None \<longrightarrow> baseline m U < u_opt)"
proof -
  let ?key = "\<lambda>(key :: string, utility :: real, s :: strategy option). utility"
  let ?R = "\<lambda>x y :: string \<times> real \<times> strategy option. branch_rank (fst x) < branch_rank (fst y)"
  from assms have "\<exists>st. consider_moves h m self = Inr st"
    unfolding update_strategy_def by (auto dest!: case_sum_Inr)
  then obtain m2 pm lst where cm: "consider_moves h m self = Inr (m2, pm, lst)"
    by (metis prod.collapse)
  from assms cm obtain opt where mo: "max_utility_option pm = Inr opt"
    and ns: "new_strategy self' =
        (if opt = ''current'' then None else snd (the (map_of pm opt)))"
    and found: "opt \<noteq> ''current'' \<longrightarrow> map_of pm opt \<noteq> None"
    unfolding update_strategy_def
    by (auto dest!: case_sum_Inr split: if_splits option.splits)
  from consider_moves_result [OF cm] obtain U Dpart Opart where
    U: "calculate_utility h m self (strategy self) = Inr U"
    and pm: "pm = (''current'', baseline m U, Some (strategy self)) # Dpart @ Opart"
    and Dp: "Dpart = [] \<or> (\<exists>du ds. Dpart = [(''delegator'', du, Some ds)] \<and>
         find_delegation_move_desirability h m self None = Inr ds \<and>
         calculate_utility h m self ds = Inr du)"
    and Op: "Opart = [] \<or> (\<exists>ou os. Opart = [(''operator'', ou, os)] \<and>
         (case os of None \<Rightarrow> ou = 0
          | Some s \<Rightarrow> calculate_utility h m self s = Inr ou \<and> 0 < ou))"
    by blast
  have ord: "sorted_wrt ?R pm" and keys: "fst ` set pm \<subseteq> {''current'', ''delegator'', ''operator''}"
    and dist: "distinct (map fst pm)"
    using possible_moves_order [OF pm] Dp Op by blast+
  have cur: "map_of pm ''current'' = Some (baseline m U, Some (strategy self))"
    by (simp add: pm)
  have util: "calculate_utility h m self s = Inr u"
    if "key \<noteq> ''current''" "map_of pm key = Some (u, Some s)" for key u s
  proof -
    from that(2) have "(key, u, Some s) \<in> set pm" by (rule map_of_SomeD)
    with that(1) have "(key, u, Some s) \<in> set Dpart \<or> (key, u, Some s) \<in> set Opart"
      by (auto simp: pm)
    with Dp Op show ?thesis by auto
  qed
  define best where "best = max_from ?key (''current'', baseline m U, Some (strategy self)) (Dpart @ Opart)"
  have opt: "opt = fst best"
    using mo by (simp add: max_utility_option_def py_max_def pm best_def)
  from max_from_split [of "(''current'', baseline m U, Some (strategy self))" "Dpart @ Opart" ?key]
  obtain pre post where split: "pm = pre @ best # post"
    and less: "\<forall>x \<in> set pre. ?key x < ?key best" and le: "\<forall>x \<in> set post. ?key x \<le> ?key best"
    unfolding best_def pm by blast
  obtain u_opt s_opt where best: "best = (opt, u_opt, s_opt)"
    using opt by (cases best) simp
  have "best \<in> set pm" by (simp add: split)
  with dist have mopt: "map_of pm opt = Some (u_opt, s_opt)" by (simp add: best)
  have cmp: "u \<le> u_opt \<and> (branch_rank key < branch_rank opt \<longrightarrow> u < u_opt)"
    if "map_of pm key = Some (u, s)" for key u s
  proof -
    from that have "(key, u, s) \<in> set pm" by (rule map_of_SomeD)
    then consider "(key, u, s) \<in> set pre" | "(key, u, s) = best" | "(key, u, s) \<in> set post"
      by (auto simp: split)
    then show ?thesis
    proof cases
      case 1
      with less show ?thesis by (auto simp: best)
    next
      case 2
      then show ?thesis by (simp add: best)
    next
      case 3
      with ord have "branch_rank opt < branch_rank key"
        unfolding split by (auto simp: sorted_wrt_append best)
      moreover from 3 le have "u \<le> u_opt" by (auto simp: best)
      ultimately show ?thesis by simp
    qed
  qed
  have ns': "new_strategy self' = (if opt = ''current'' then None else s_opt)"
    by (simp add: ns mopt)
  have strict: "baseline m U < u_opt" if "new_strategy self' \<noteq> None"
  proof -
    from that ns' have "opt \<noteq> ''current''" by auto
    then have "branch_rank ''current'' < branch_rank opt" by (simp add: branch_rank_def)
    with cmp [OF cur] show ?thesis by simp
  qed
  from U cm mo keys dist cur util mopt cmp ns' strict show ?thesis by blast
qed

text \<open>
  Agent 30 of the example has a utility of 0 now; the pool it would open is worth more
  than the baseline, and it is staged.
\<close>

theorem update_strategy_choice_witness:
  "\<exists>m' self' s u. update_strategy ex_helpers ex_sim ex_newcomer = Inr (m', self') \<and>
     new_strategy self' = Some s \<and>
     calculate_utility ex_helpers ex_sim ex_newcomer s = Inr u \<and> baseline ex_sim 0 < u"
proof -
  have "map_sum id (\<lambda>(m, a). new_strategy a \<noteq> None)
     (update_strategy ex_helpers ex_sim ex_newcomer) = Inr True"
    by code_simp
  then have "\<exists>m' self'. update_strategy ex_helpers ex_sim ex_newcomer = Inr (m', self') \<and>
      new_strategy self' \<noteq> None"
    by (cases "update_strategy ex_helpers ex_sim ex_newcomer")
      (simp_all add: split_beta, metis prod.collapse)
  then obtain m' self' where r: "update_strategy ex_helpers ex_sim ex_newcomer = Inr (m', self')"
    and n: "new_strategy self' \<noteq> None"
    by blast
  have U0: "calculate_utility ex_helpers ex_sim ex_newcomer (strategy ex_newcomer) = Inr 0"
    by (simp add: calculate_utility_def ex_newcomer_def Strategy_default_def Strategy_init_def)
  from update_strategy_choice [OF r] obtain U m2 pm lst opt u_opt s_opt where
    c: "calculate_utility ex_helpers ex_sim ex_newcomer (strategy ex_newcomer) = Inr U \<and>
      consider_moves ex_helpers ex_sim ex_newcomer = Inr (m2, pm, lst) \<and>
      max_utility_option pm = Inr opt \<and>
      fst ` set pm \<subseteq> {''current'', ''delegator'', ''operator''} \<and> distinct (map fst pm) \<and>
      map_of pm ''current'' = Some (baseline ex_sim U, Some (strategy ex_newcomer)) \<and>
      (\<forall>key u s. key \<noteq> ''current'' \<and> map_of pm key = Some (u, Some s) \<longrightarrow>
         calculate_utility ex_helpers ex_sim ex_newcomer s = Inr u) \<and>
      map_of pm opt = Some (u_opt, s_opt) \<and>
      (\<forall>key u s. map_of pm key = Some (u, s) \<longrightarrow>
         u \<le> u_opt \<and> (branch_rank key < branch_rank opt \<longrightarrow> u < u_opt)) \<and>
      new_strategy self' = (if opt = ''current'' then None else s_opt) \<and>
      (new_strategy self' \<noteq> None \<longrightarrow> baseline ex_sim U < u_opt)"
    by (elim exE) (rule that)
  from c U0 have "U = 0" by simp
  from c n obtain s where s: "opt \<noteq> ''current''" "s_opt = Some s" "new_strategy self' = Some s"
    by (cases "opt = ''current''") auto
  from c s have u: "calculate_utility ex_helpers ex_sim ex_newcomer s = Inr u_opt" by blast
  from c n \<open>U = 0\<close> have "baseline ex_sim 0 < u_opt" by simp
  with r s(3) u show ?thesis by blast
qed

section \<open>The pool ids of an operator branch that is not chosen\<close>


section \<open>Allocations to pools that are not registered\<close>













end
